theory Spec2Isabelle
  imports Complex_Main
begin

section \<open>Order Invalidator: the batch partitioner\<close>

text \<open>
  The embedding follows \<^verbatim>\<open>src/order-invalidator.js\<close>. Identifiers are strings, array
  indices and the chunk size are integers (the JavaScript numbers that occur are
  integral), and a loop that need not terminate returns \<open>None\<close> when it runs forever.
\<close>

type_synonym order_id = string

definition BATCH_SIZE :: int where
  "BATCH_SIZE = 5000"

text \<open>
  \<^verbatim>\<open>Array.prototype.slice(start, end)\<close>: a negative index counts from the end of the
  array, both indices are clamped to the array, and an empty range gives the empty array.
\<close>

definition slice :: "'a list \<Rightarrow> int \<Rightarrow> int \<Rightarrow> 'a list" where
  "slice array start end =
     (let len = int (length array);
          k = (if start < 0 then max (len + start) 0 else min start len);
          final = (if end < 0 then max (len + end) 0 else min end len)
      in take (nat (max (final - k) 0)) (drop (nat k) array))"

text \<open>
  The loop of \<^verbatim>\<open>chunkArray\<close>:
  \<^verbatim>\<open>for (let i = 0; i < array.length; i += size) chunks.push(array.slice(i, i + size));\<close>
\<close>

partial_function (option) chunkArray_loop ::
  "'a list \<Rightarrow> int \<Rightarrow> int \<Rightarrow> 'a list list \<Rightarrow> 'a list list option" where
  "chunkArray_loop array size' i chunks =
     (if i < int (length array)
      then chunkArray_loop array size' (i + size') (chunks @ [slice array i (i + size')])
      else Some chunks)"

declare chunkArray_loop.simps [code]

definition chunkArray :: "'a list \<Rightarrow> int \<Rightarrow> 'a list list option" where
  "chunkArray array size' = chunkArray_loop array size' 0 []"

subsection \<open>The partitioner on a store\<close>

text \<open>
  JavaScript arrays are objects reached by reference. To say what \<^verbatim>\<open>chunkArray\<close> does to
  its argument, the same loop is written over a store: a list of arrays, an address
  being a position in it. \<^verbatim>\<open>array.slice\<close> allocates a new array, \<^verbatim>\<open>chunks.push\<close> updates
  the array of references \<^verbatim>\<open>chunks\<close> in place, and the call returns the address of
  \<^verbatim>\<open>chunks\<close>. \<open>batches\<close> reads the result back as a list of lists.
\<close>

datatype 'a obj = IdArray "'a list" | RefArray "nat list"

type_synonym 'a store = "'a obj list"

definition alloc :: "'a store \<Rightarrow> 'a obj \<Rightarrow> nat \<times> 'a store" where
  "alloc h v = (length h, h @ [v])"

definition elems :: "'a store \<Rightarrow> nat \<Rightarrow> 'a list" where
  "elems h p =
     (if p < length h then (case h ! p of IdArray xs \<Rightarrow> xs | RefArray ps \<Rightarrow> []) else [])"

definition push :: "'a store \<Rightarrow> nat \<Rightarrow> nat \<Rightarrow> 'a store" where
  "push h c p =
     (if c < length h
      then (case h ! c of RefArray ps \<Rightarrow> h[c := RefArray (ps @ [p])] | IdArray xs \<Rightarrow> h)
      else h)"

partial_function (option) chunkArray_store_loop ::
  "'a store \<Rightarrow> nat \<Rightarrow> int \<Rightarrow> nat \<Rightarrow> int \<Rightarrow> 'a store option" where
  "chunkArray_store_loop h array size' chunks i =
     (if i < int (length (elems h array))
      then (case alloc h (IdArray (slice (elems h array) i (i + size'))) of
              (p, h1) \<Rightarrow> chunkArray_store_loop (push h1 chunks p) array size' chunks (i + size'))
      else Some h)"

declare chunkArray_store_loop.simps [code]

definition chunkArray_store :: "'a store \<Rightarrow> nat \<Rightarrow> int \<Rightarrow> (nat \<times> 'a store) option" where
  "chunkArray_store h array size' =
     (case alloc h (RefArray []) of
        (chunks, h0) \<Rightarrow>
          map_option (\<lambda>h'. (chunks, h')) (chunkArray_store_loop h0 array size' chunks 0))"

definition batches :: "'a store \<Rightarrow> nat \<Rightarrow> 'a list list" where
  "batches h c =
     (if c < length h then (case h ! c of RefArray ps \<Rightarrow> map (elems h) ps | IdArray xs \<Rightarrow> [])
      else [])"


section \<open>JavaScript values, errors and HTTP responses\<close>

text \<open>
  The values a parsed JSON body can hold, with \<open>undefined\<close> for a missing property.
  A number is carried by the text JavaScript prints for it (\<^verbatim>\<open>Number.prototype.toString\<close>):
  \<^verbatim>\<open>0\<close> for either zero, \<^verbatim>\<open>0.5\<close>, \<^verbatim>\<open>-3\<close>, \<^verbatim>\<open>1e+21\<close>, \<^verbatim>\<open>Infinity\<close>. The code does two things
  with a number of a body: it tests it for truthiness and it prints it.
\<close>

datatype js =
    JUndefined
  | JNull
  | JBool bool
  | JNum string
  | JStr string
  | JArr "js list"
  | JObj "(string \<times> js) list"

text \<open>JavaScript truthiness, as used by \<^verbatim>\<open>||\<close> and \<^verbatim>\<open>!\<close>.\<close>

fun truthy :: "js \<Rightarrow> bool" where
  "truthy JUndefined = False"
| "truthy JNull = False"
| "truthy (JBool b) = b"
| "truthy (JNum t) = (t \<noteq> ''0'' \<and> t \<noteq> ''NaN'')"
| "truthy (JStr s) = (s \<noteq> [])"
| "truthy (JArr xs) = True"
| "truthy (JObj ps) = True"

text \<open>A thrown error or a rejected promise, with its \<^verbatim>\<open>message\<close>.\<close>

datatype js_error = Thrown (message: string)

text \<open>
  Reading a property \<^verbatim>\<open>v.name\<close>. On \<open>null\<close> and \<open>undefined\<close> it throws a TypeError (the
  message is the one of V8); on an object it is the property, or \<open>undefined\<close> when the
  object has none of that name. The names read by the code (\<^verbatim>\<open>error\<close>, \<^verbatim>\<open>status\<close>,
  \<^verbatim>\<open>message\<close>, \<^verbatim>\<open>error_description\<close>, \<^verbatim>\<open>access_token\<close>) are not defined on primitives or
  arrays, where the read gives \<open>undefined\<close>.
\<close>

definition cannotRead :: "string \<Rightarrow> string \<Rightarrow> js_error" where
  "cannotRead what name =
     Thrown (''Cannot read properties of '' @ what @ '' (reading '' @ [CHR 0x27] @ name @ [CHR 0x27] @ '')'')"

fun getProp :: "js \<Rightarrow> string \<Rightarrow> js_error + js" where
  "getProp JUndefined name = Inl (cannotRead ''undefined'' name)"
| "getProp JNull name = Inl (cannotRead ''null'' name)"
| "getProp (JObj ps) name = Inr (case map_of ps name of None \<Rightarrow> JUndefined | Some v \<Rightarrow> v)"
| "getProp v name = Inr JUndefined"

text \<open>Optional chaining \<^verbatim>\<open>v?.name\<close>: \<open>undefined\<close> when \<open>v\<close> is \<open>null\<close> or \<open>undefined\<close>.\<close>

fun optProp :: "js \<Rightarrow> string \<Rightarrow> js" where
  "optProp JUndefined name = JUndefined"
| "optProp JNull name = JUndefined"
| "optProp (JObj ps) name = (case map_of ps name of None \<Rightarrow> JUndefined | Some v \<Rightarrow> v)"
| "optProp v name = JUndefined"

text \<open>
  Decimal digits of a natural number. It prints the status of a response, which is a
  16-bit number and so far below \<open>10^21\<close>, from where JavaScript prints an exponent.
\<close>

fun show_nat :: "nat \<Rightarrow> string" where
  "show_nat n =
     (if n < 10 then [char_of (48 + n)] else show_nat (n div 10) @ [char_of (48 + n mod 10)])"

declare show_nat.simps [simp del]

text \<open>
  The string a template literal makes of a value (\<^verbatim>\<open>ToString\<close>). An array is joined with
  commas, \<open>null\<close> and \<open>undefined\<close> elements giving the empty string, and the first
  element that throws ends the conversion. An object is converted by its \<^verbatim>\<open>toString\<close>
  method: the one of \<^verbatim>\<open>Object.prototype\<close>, giving \<^verbatim>\<open>[object Object]\<close>, unless the object has
  a property of that name of its own. A property of a parsed body is never a function,
  so with such a property the conversion throws a TypeError (the message is the one of
  V8).
\<close>

fun joinTexts :: "(js_error + string) list \<Rightarrow> js_error + string" where
  "joinTexts [] = Inr []"
| "joinTexts (Inl err # rs) = Inl err"
| "joinTexts (Inr x # rs) =
     (case joinTexts rs of
        Inl err \<Rightarrow> Inl err
      | Inr y \<Rightarrow> Inr (if rs = [] then x else x @ '','' @ y))"

fun toString :: "js \<Rightarrow> js_error + string" where
  "toString JUndefined = Inr ''undefined''"
| "toString JNull = Inr ''null''"
| "toString (JBool b) = Inr (if b then ''true'' else ''false'')"
| "toString (JNum t) = Inr t"
| "toString (JStr s) = Inr s"
| "toString (JArr xs) =
     joinTexts (map (\<lambda>x. if x = JUndefined \<or> x = JNull then Inr [] else toString x) xs)"
| "toString (JObj ps) =
     (if map_of ps ''toString'' = None then Inr ''[object Object]''
      else Inl (Thrown ''Cannot convert object to primitive value''))"

text \<open>
  A response of \<^verbatim>\<open>fetch\<close>: its status code and status text, and what \<^verbatim>\<open>response.json()\<close>
  settles to: \<open>Inl m\<close> when it rejects (a body that is not JSON) with message \<open>m\<close>,
  \<open>Inr v\<close> when the body parses to \<open>v\<close>.
\<close>

record response =
  status :: nat
  statusText :: string
  json :: "string + js"

definition ok :: "response \<Rightarrow> bool" where
  "ok r = (200 \<le> status r \<and> status r \<le> 299)"

text \<open>What awaiting \<^verbatim>\<open>fetch(...)\<close> gives: a rejection (the request never completed) or a response.\<close>

datatype fetch_result = Rejects string | Resolves response

section \<open>The run and its environment\<close>

text \<open>
  The environment of one run: the result of the token request, the result of the request
  of each batch (by the index \<open>i\<close> of the loop), and the value of the global flag
  \<^verbatim>\<open>isCancelled\<close> that iteration \<open>i\<close> reads. The flag is written by the click handler
  \<^verbatim>\<open>handleInvalidationClick\<close>, which can only run while the loop is suspended in an
  \<^verbatim>\<open>await\<close>.
\<close>

record env =
  tokenFetch :: fetch_result
  batchFetch :: "nat \<Rightarrow> fetch_result"
  isCancelled :: "nat \<Rightarrow> bool"

text \<open>The requests a run sends, in order.\<close>

datatype request =
    TokenRequest string string
  | PurchasesDelete string js "order_id list"

text \<open>
  The lines \<^verbatim>\<open>logToScreen\<close> writes, by their template and the values put in; the flag of
  an entry is \<^verbatim>\<open>isError\<close>. The time stamp of a line and the duration of the last line
  come from the clock and are left out.
\<close>

datatype log_message =
    StartingProcess nat
  | GeneratingToken
  | TokenGenerated
  | CriticalError string
  | ProcessStopped
  | StartingInvalidation nat int
  | ProcessCancelled
  | ProcessingBatch nat nat
  | BatchSuccess nat
  | BatchFailed nat string
  | ProcessingComplete
  | Summary nat nat
  | TotalTime

text \<open>
  The state of a run: the three counters of \<^verbatim>\<open>invalidateOrdersInBatches\<close>, the requests
  sent so far and the log.
\<close>

record session =
  totalSuccessCount :: nat
  totalFailCount :: nat
  processedIdCount :: nat
  sent :: "request list"
  logOutput :: "(log_message \<times> bool) list"

definition logToScreen :: "log_message \<Rightarrow> bool \<Rightarrow> session \<Rightarrow> session" where
  "logToScreen msg isError s = s\<lparr>logOutput := logOutput s @ [(msg, isError)]\<rparr>"

definition newSession :: session where
  "newSession = \<lparr>totalSuccessCount = 0, totalFailCount = 0, processedIdCount = 0,
     sent = [], logOutput = []\<rparr>"

subsection \<open>Step 1: the token\<close>

text \<open>
  \<^verbatim>\<open>generateUToken\<close>: one POST; the body is parsed before the status is looked at, so a
  body that does not parse rejects whatever the status is. The message of the error for
  a status that is not a success is a template literal, whose conversion can throw.
\<close>

definition generateUToken ::
  "env \<Rightarrow> string \<Rightarrow> string \<Rightarrow> session \<Rightarrow> session \<times> (js_error + js)" where
  "generateUToken e appKey secretKey s =
     (let s1 = logToScreen GeneratingToken False s;
          s2 = s1\<lparr>sent := sent s1 @ [TokenRequest appKey secretKey]\<rparr>
      in case tokenFetch e of
           Rejects m \<Rightarrow> (s2, Inl (Thrown m))
         | Resolves response \<Rightarrow>
             (case json response of
                Inl m \<Rightarrow> (s2, Inl (Thrown m))
              | Inr data \<Rightarrow>
                  if \<not> ok response then
                    (case getProp data ''error_description'' of
                       Inl err \<Rightarrow> (s2, Inl err)
                     | Inr d \<Rightarrow>
                         (case toString (if truthy d then d else JStr (statusText response)) of
                            Inl err \<Rightarrow> (s2, Inl err)
                          | Inr text \<Rightarrow>
                              (s2, Inl (Thrown (''Token generation failed: '' @ text)))))
                  else
                    (case getProp data ''access_token'' of
                       Inl err \<Rightarrow> (s2, Inl err)
                     | Inr uToken \<Rightarrow>
                         if \<not> truthy uToken
                         then (s2, Inl (Thrown ''Token not found in authentication response.''))
                         else (logToScreen TokenGenerated False s2, Inr uToken))))"

subsection \<open>Step 2: the batches\<close>

text \<open>
  The message of a failed batch:
  \<^verbatim>\<open>errorData.error || errorData.status?.message || `HTTP ${response.status}`\<close>, where
  \<^verbatim>\<open>errorData\<close> is the parsed body, or \<^verbatim>\<open>{}\<close> when the body does not parse.
\<close>

definition errorData :: "response \<Rightarrow> js" where
  "errorData response = (case json response of Inl m \<Rightarrow> JObj [] | Inr v \<Rightarrow> v)"

definition errorMessage :: "response \<Rightarrow> js_error + js" where
  "errorMessage response =
     (case getProp (errorData response) ''error'' of
        Inl err \<Rightarrow> Inl err
      | Inr v1 \<Rightarrow>
          if truthy v1 then Inr v1
          else (case getProp (errorData response) ''status'' of
                  Inl err \<Rightarrow> Inl err
                | Inr st \<Rightarrow>
                    (let v2 = optProp st ''message''
                     in if truthy v2 then Inr v2
                        else Inr (JStr (''HTTP '' @ show_nat (status response))))))"

text \<open>
  The \<^verbatim>\<open>try\<close> block of one iteration, after the request has been handed to \<^verbatim>\<open>fetch\<close>:
  \<open>Inl\<close> is an exception that leaves the block. The template literal of the failure
  line is evaluated before \<^verbatim>\<open>logToScreen\<close> is called, so an exception of the conversion
  leaves the block with nothing logged or counted.
\<close>

definition batchTry ::
  "fetch_result \<Rightarrow> nat \<Rightarrow> order_id list \<Rightarrow> session \<Rightarrow> js_error + session" where
  "batchTry fr batchNumber batch s =
     (case fr of
        Rejects m \<Rightarrow> Inl (Thrown m)
      | Resolves response \<Rightarrow>
          if status response = 200 \<or> status response = 204 then
            Inr ((logToScreen (BatchSuccess batchNumber) False s)
                   \<lparr>totalSuccessCount := totalSuccessCount s + length batch\<rparr>)
          else
            (case errorMessage response of
               Inl err \<Rightarrow> Inl err
             | Inr msg \<Rightarrow>
                 (case toString msg of
                    Inl err \<Rightarrow> Inl err
                  | Inr text \<Rightarrow>
                      Inr ((logToScreen (BatchFailed batchNumber text) True s)
                             \<lparr>totalFailCount := totalFailCount s + length batch\<rparr>))))"

text \<open>The \<^verbatim>\<open>try\<close> with its \<^verbatim>\<open>catch (networkError)\<close>.\<close>

definition batchTryCatch ::
  "fetch_result \<Rightarrow> nat \<Rightarrow> order_id list \<Rightarrow> session \<Rightarrow> session" where
  "batchTryCatch fr batchNumber batch s =
     (case batchTry fr batchNumber batch s of
        Inr s' \<Rightarrow> s'
      | Inl networkError \<Rightarrow>
          (logToScreen (BatchFailed batchNumber (''Network error: '' @ message networkError)) True s)
            \<lparr>totalFailCount := totalFailCount s + length batch\<rparr>)"

text \<open>
  The body of the loop after the cancellation check. \<^verbatim>\<open>updateProgressUI\<close> and the pause
  of 500 ms change the progress display and the clock only.
\<close>

definition batchIteration ::
  "env \<Rightarrow> js \<Rightarrow> string \<Rightarrow> order_id list list \<Rightarrow> nat \<Rightarrow> session \<Rightarrow> session" where
  "batchIteration e uToken appKey orderIdChunks i s =
     (let batch = orderIdChunks ! i;
          batchNumber = i + 1;
          s1 = logToScreen (ProcessingBatch batchNumber (length orderIdChunks)) False s;
          s2 = s1\<lparr>sent := sent s1 @ [PurchasesDelete appKey uToken batch]\<rparr>;
          s3 = batchTryCatch (batchFetch e i) batchNumber batch s2
      in s3\<lparr>processedIdCount := processedIdCount s3 + length batch\<rparr>)"

text \<open>
  \<^verbatim>\<open>for (let i = 0; i < orderIdChunks.length; i++) { if (isCancelled) { ...; break; } ... }\<close>
\<close>

function batchLoop ::
  "env \<Rightarrow> js \<Rightarrow> string \<Rightarrow> order_id list list \<Rightarrow> nat \<Rightarrow> session \<Rightarrow> session" where
  "batchLoop e uToken appKey orderIdChunks i s =
     (if i < length orderIdChunks then
        (if isCancelled e i then logToScreen ProcessCancelled True s
         else batchLoop e uToken appKey orderIdChunks (i + 1)
                (batchIteration e uToken appKey orderIdChunks i s))
      else s)"
  by pat_completeness auto
termination
  by (relation "measure (\<lambda>(e, uToken, appKey, orderIdChunks, i, s). length orderIdChunks - i)") auto

declare batchLoop.simps [simp del]

text \<open>The three lines written after the loop, whichever way it ended.\<close>

definition logSummary :: "session \<Rightarrow> session" where
  "logSummary s =
     logToScreen TotalTime False
       (logToScreen (Summary (totalSuccessCount s) (totalFailCount s)) False
          (logToScreen ProcessingComplete False s))"

text \<open>
  \<^verbatim>\<open>invalidateOrdersInBatches\<close>, with the chunk size as a parameter; the code calls it with
  \<open>BATCH_SIZE\<close>. The result is \<open>None\<close> when \<^verbatim>\<open>chunkArray\<close> does not return.
\<close>

definition processChunks ::
  "env \<Rightarrow> js \<Rightarrow> string \<Rightarrow> order_id list list \<Rightarrow> session \<Rightarrow> session" where
  "processChunks e uToken appKey orderIdChunks s =
     logSummary (batchLoop e uToken appKey orderIdChunks 0
       (s\<lparr>totalSuccessCount := 0, totalFailCount := 0, processedIdCount := 0\<rparr>))"

definition invalidateOrdersInBatchesWith ::
  "int \<Rightarrow> env \<Rightarrow> js \<Rightarrow> string \<Rightarrow> order_id list \<Rightarrow> session \<Rightarrow> session option" where
  "invalidateOrdersInBatchesWith size' e uToken appKey allOrderIds s =
     (let s1 = logToScreen (StartingInvalidation (length allOrderIds) size') False s
      in case chunkArray allOrderIds size' of
           None \<Rightarrow> None
         | Some orderIdChunks \<Rightarrow> Some (processChunks e uToken appKey orderIdChunks s1))"

definition invalidateOrdersInBatches ::
  "env \<Rightarrow> js \<Rightarrow> string \<Rightarrow> order_id list \<Rightarrow> session \<Rightarrow> session option" where
  "invalidateOrdersInBatches = invalidateOrdersInBatchesWith BATCH_SIZE"

subsection \<open>The whole run\<close>

text \<open>
  \<^verbatim>\<open>startInvalidationProcess\<close>, from the two checks of its inputs on: the keys are the
  trimmed input fields and \<open>allOrderIds\<close> the trimmed, non-empty lines of the text area.
  A run either stops at an \<^verbatim>\<open>alert\<close> or ends with a session.
\<close>

datatype run_result = Alert string | Finished session

definition startInvalidationProcessWith ::
  "int \<Rightarrow> env \<Rightarrow> string \<Rightarrow> string \<Rightarrow> order_id list \<Rightarrow> run_result option" where
  "startInvalidationProcessWith size' e appKey secretKey allOrderIds =
     (if allOrderIds = [] then Some (Alert ''Please paste or import at least one Order ID.'')
      else if appKey = [] \<or> secretKey = []
      then Some (Alert ''Please provide both an App Key and a Secret Key.'')
      else
        (let s0 = logToScreen (StartingProcess (length allOrderIds)) False newSession
         in case generateUToken e appKey secretKey s0 of
              (s1, Inl error) \<Rightarrow>
                Some (Finished (logToScreen ProcessStopped False
                        (logToScreen (CriticalError (message error)) True s1)))
            | (s1, Inr generatedUtoken) \<Rightarrow>
                map_option Finished
                  (invalidateOrdersInBatchesWith size' e generatedUtoken appKey allOrderIds s1)))"

definition startInvalidationProcess ::
  "env \<Rightarrow> string \<Rightarrow> string \<Rightarrow> order_id list \<Rightarrow> run_result option" where
  "startInvalidationProcess = startInvalidationProcessWith BATCH_SIZE"

section \<open>Progress and the estimated time remaining\<close>

text \<open>
  The numbers of \<^verbatim>\<open>updateProgressUI\<close> and \<^verbatim>\<open>formatTime\<close>: a finite value, carried as an exact
  rational in place of the double, or one of the three values that are not finite.
  Rounding of a double, and a finite product too large for a double, are left out.
\<close>

datatype jsnum = Finite rat | PosInfinity | NegInfinity | NaN

text \<open>
  The division \<^verbatim>\<open>elapsedTime / current\<close> of two finite numbers; a divisor that is zero is
  the count \<open>+0\<close>.
\<close>

definition jsDivide :: "rat \<Rightarrow> rat \<Rightarrow> jsnum" where
  "jsDivide a b =
     (if b \<noteq> 0 then Finite (a / b)
      else if a = 0 then NaN
      else if 0 < a then PosInfinity else NegInfinity)"

text \<open>The product \<^verbatim>\<open>(total - current) * timePerItem\<close> of a finite number and any number.\<close>

fun jsTimes :: "rat \<Rightarrow> jsnum \<Rightarrow> jsnum" where
  "jsTimes a (Finite b) = Finite (a * b)"
| "jsTimes a PosInfinity = (if a = 0 then NaN else if 0 < a then PosInfinity else NegInfinity)"
| "jsTimes a NegInfinity = (if a = 0 then NaN else if 0 < a then NegInfinity else PosInfinity)"
| "jsTimes a NaN = NaN"

text \<open>
  What \<^verbatim>\<open>formatTime\<close> returns, by its template and the numbers put in: \<^verbatim>\<open>N/A\<close>, the seconds
  alone, or minutes and seconds.
\<close>

datatype time_text = NotAvailable | Seconds int | MinutesSeconds int int

text \<open>
  \<^verbatim>\<open>formatTime(ms)\<close>: \<^verbatim>\<open>N/A\<close> when \<^verbatim>\<open>ms < 0 || !isFinite(ms)\<close>; else \<^verbatim>\<open>Math.round(ms / 1000)\<close>
  seconds (the nearest integer, a half rounded up), split into minutes and seconds, the
  minutes shown when there are any.
\<close>

fun formatTime :: "jsnum \<Rightarrow> time_text" where
  "formatTime (Finite ms) =
     (if ms < 0 then NotAvailable
      else
        (let seconds = \<lfloor>ms / 1000 + 1 / 2\<rfloor>;
             minutes = seconds div 60;
             seconds' = seconds mod 60
         in if 0 < minutes then MinutesSeconds minutes seconds' else Seconds seconds'))"
| "formatTime ms = NotAvailable"

text \<open>
  \<^verbatim>\<open>updateProgressUI(current, total, startTime)\<close>, with the elapsed time
  \<^verbatim>\<open>Date.now() - startTime\<close>, a whole number of milliseconds, as a parameter. \<open>etrMs\<close> is the
  variable of that name, and the result is the time text put into \<^verbatim>\<open>etrText\<close>. The width
  of the bar and the percentage text, which the function sets as well, are left out.
\<close>

definition etrMs :: "nat \<Rightarrow> nat \<Rightarrow> int \<Rightarrow> jsnum" where
  "etrMs current total' elapsedTime =
     (let timePerItem = jsDivide (of_int elapsedTime) (of_nat current)
      in jsTimes (of_nat total' - of_nat current) timePerItem)"

definition updateProgressUI :: "nat \<Rightarrow> nat \<Rightarrow> int \<Rightarrow> time_text" where
  "updateProgressUI current total' elapsedTime = formatTime (etrMs current total' elapsedTime)"

section \<open>Notions used to state the properties\<close>

text \<open>
  The two outcomes of a batch, as what they do to the session: one line of the log and
  the size of the batch added to one counter.
\<close>

definition succeeded :: "nat \<Rightarrow> order_id list \<Rightarrow> session \<Rightarrow> session" where
  "succeeded batchNumber batch s =
     (logToScreen (BatchSuccess batchNumber) False s)
       \<lparr>totalSuccessCount := totalSuccessCount s + length batch\<rparr>"

definition failed :: "nat \<Rightarrow> order_id list \<Rightarrow> string \<Rightarrow> session \<Rightarrow> session" where
  "failed batchNumber batch msg s =
     (logToScreen (BatchFailed batchNumber msg) True s)
       \<lparr>totalFailCount := totalFailCount s + length batch\<rparr>"

text \<open>The request of a batch succeeds: it resolves with status 200 or 204.\<close>

definition batchSucceeds :: "fetch_result \<Rightarrow> bool" where
  "batchSucceeds fr =
     (case fr of Rejects m \<Rightarrow> False | Resolves r \<Rightarrow> status r = 200 \<or> status r = 204)"

text \<open>The message logged for a request that does not succeed.\<close>

definition failureMessage :: "fetch_result \<Rightarrow> string" where
  "failureMessage fr =
     (case fr of
        Rejects m \<Rightarrow> ''Network error: '' @ m
      | Resolves r \<Rightarrow>
          (case errorMessage r of
             Inl err \<Rightarrow> ''Network error: '' @ message err
           | Inr v \<Rightarrow>
               (case toString v of
                  Inl err \<Rightarrow> ''Network error: '' @ message err
                | Inr text \<Rightarrow> text)))"

text \<open>The identifiers of the first \<open>k\<close> batches whose request succeeds, and fails.\<close>

definition succeededIn :: "env \<Rightarrow> order_id list list \<Rightarrow> nat \<Rightarrow> nat" where
  "succeededIn e cs k =
     sum_list (map (\<lambda>j. if batchSucceeds (batchFetch e j) then length (cs ! j) else 0) [0..<k])"

definition failedIn :: "env \<Rightarrow> order_id list list \<Rightarrow> nat \<Rightarrow> nat" where
  "failedIn e cs k =
     sum_list (map (\<lambda>j. if batchSucceeds (batchFetch e j) then 0 else length (cs ! j)) [0..<k])"

text \<open>The session after the first \<open>k\<close> iterations of the loop.\<close>

definition iterations ::
  "env \<Rightarrow> js \<Rightarrow> string \<Rightarrow> order_id list list \<Rightarrow> nat \<Rightarrow> session \<Rightarrow> session" where
  "iterations e u a cs k s = fold (batchIteration e u a cs) [0..<k] s"

text \<open>The token request fails: \<^verbatim>\<open>generateUToken\<close> throws.\<close>

definition credentialFails :: "env \<Rightarrow> bool" where
  "credentialFails e =
     (case tokenFetch e of
        Rejects m \<Rightarrow> True
      | Resolves r \<Rightarrow>
          (case json r of
             Inl m \<Rightarrow> True
           | Inr data \<Rightarrow> \<not> ok r \<or> \<not> truthy (optProp data ''access_token'')))"

section \<open>An example run\<close>

text \<open>
  Twelve identifiers in batches of five; the token is granted, the second batch is
  answered with status 500 and the other two with status 204.
\<close>

definition exampleIds :: "order_id list" where
  "exampleIds = [''1001'', ''1002'', ''1003'', ''1004'', ''1005'', ''1006'', ''1007'', ''1008'',
     ''1009'', ''1010'', ''1011'', ''1012'']"

definition noContent :: response where
  "noContent = \<lparr>status = 204, statusText = ''No Content'',
     json = Inl ''Unexpected end of JSON input''\<rparr>"

definition rateLimited :: response where
  "rateLimited = \<lparr>status = 500, statusText = ''Internal Server Error'',
     json = Inr (JObj [(''error'', JStr ''rate limited'')])\<rparr>"

definition tokenGranted :: response where
  "tokenGranted = \<lparr>status = 200, statusText = ''OK'',
     json = Inr (JObj [(''access_token'', JStr ''tok'')])\<rparr>"

definition exampleEnv :: env where
  "exampleEnv = \<lparr>tokenFetch = Resolves tokenGranted,
     batchFetch = (\<lambda>i. if i = 1 then Resolves rateLimited else Resolves noContent),
     isCancelled = (\<lambda>i. False)\<rparr>"

definition cancelledAfterTwo :: env where
  "cancelledAfterTwo = exampleEnv\<lparr>isCancelled := (\<lambda>i. 2 \<le> i)\<rparr>"

definition emptyBody :: response where
  "emptyBody = \<lparr>status = 500, statusText = ''Internal Server Error'', json = Inr (JObj [])\<rparr>"

definition nullBody :: response where
  "nullBody = \<lparr>status = 500, statusText = ''Internal Server Error'', json = Inr JNull\<rparr>"

definition tokenRefused :: response where
  "tokenRefused = \<lparr>status = 401, statusText = ''Unauthorized'',
     json = Inr (JObj [(''error'', JStr ''invalid_client''),
                       (''error_description'', JStr ''Bad credentials'')])\<rparr>"

definition tokenMissing :: response where
  "tokenMissing = \<lparr>status = 200, statusText = ''OK'',
     json = Inr (JObj [(''error_description'', JStr ''Bad credentials'')])\<rparr>"

definition allFail :: env where
  "allFail = \<lparr>tokenFetch = Resolves tokenGranted, batchFetch = (\<lambda>i. Resolves emptyBody),
     isCancelled = (\<lambda>i. False)\<rparr>"

definition refusingEnv :: env where
  "refusingEnv = exampleEnv\<lparr>tokenFetch := Resolves tokenRefused\<rparr>"

definition emptyTokenEnv :: env where
  "emptyTokenEnv = exampleEnv
     \<lparr>tokenFetch := Resolves \<lparr>status = 200, statusText = ''OK'', json = Inr (JObj [])\<rparr>\<rparr>"

definition tokenlessEnv :: env where
  "tokenlessEnv = exampleEnv\<lparr>tokenFetch := Resolves tokenMissing\<rparr>"

section \<open>Properties of the partitioner\<close>

subsection \<open>What the loop computes for a positive chunk size\<close>

text \<open>
  A structurally simpler description of the chunks from position \<open>i\<close> on, used only to
  reason about the loop.
\<close>

function chunks_from :: "nat \<Rightarrow> 'a list \<Rightarrow> nat \<Rightarrow> 'a list list" where
  "chunks_from B xs i =
     (if 0 < B \<and> i < length xs then take B (drop i xs) # chunks_from B xs (i + B) else [])"
  by pat_completeness auto
termination
  by (relation "measure (\<lambda>(B, xs, i). length xs - i)") auto

declare chunks_from.simps [simp del]

lemma slice_chunk:
  "0 < B \<Longrightarrow> i < length xs \<Longrightarrow> slice xs (int i) (int i + int B) = take B (drop i xs)"
  by (auto simp: slice_def Let_def min_def max_def nat_diff_distrib' nat_add_distrib)

lemma chunkArray_loop_pos:
  "0 < B \<Longrightarrow> chunkArray_loop xs (int B) (int i) acc = Some (acc @ chunks_from B xs i)"
proof (induction B xs i arbitrary: acc rule: chunks_from.induct)
  case (1 B xs i)
  show ?case
  proof (cases "i < length xs")
    case True
    have "chunkArray_loop xs (int B) (int i) acc =
            chunkArray_loop xs (int B) (int (i + B)) (acc @ [take B (drop i xs)])"
      using True "1.prems"
      by (subst chunkArray_loop.simps) (simp add: slice_chunk)
    also have "\<dots> = Some ((acc @ [take B (drop i xs)]) @ chunks_from B xs (i + B))"
      using "1.IH" [of "acc @ [take B (drop i xs)]"] True "1.prems" by simp
    also have "\<dots> = Some (acc @ chunks_from B xs i)"
      using True "1.prems" by (subst (2) chunks_from.simps) simp
    finally show ?thesis .
  next
    case False
    then show ?thesis
      by (subst chunkArray_loop.simps, subst chunks_from.simps) simp
  qed
qed

lemma chunkArray_pos:
  "0 < B \<Longrightarrow> chunkArray xs (int B) = Some (chunks_from B xs 0)"
  using chunkArray_loop_pos [of B xs 0 "[]"] by (simp add: chunkArray_def)

lemma concat_chunks_from: "0 < B \<Longrightarrow> concat (chunks_from B xs i) = drop i xs"
proof (induction B xs i rule: chunks_from.induct)
  case (1 B xs i)
  show ?case
  proof (cases "i < length xs")
    case True
    have "concat (chunks_from B xs i) = take B (drop i xs) @ drop (i + B) xs"
      using True "1.prems" "1.IH" by (subst chunks_from.simps) simp
    also have "\<dots> = drop i xs"
      by (metis add.commute append_take_drop_id drop_drop)
    finally show ?thesis .
  next
    case False
    then show ?thesis by (subst chunks_from.simps) simp
  qed
qed

lemma length_chunks_from:
  "0 < B \<Longrightarrow> length (chunks_from B xs i) = (length xs - i + B - 1) div B"
proof (induction B xs i rule: chunks_from.induct)
  case (1 B xs i)
  show ?case
  proof (cases "i < length xs")
    case True
    have step: "length (chunks_from B xs i) = Suc ((length xs - (i + B) + B - 1) div B)"
      using True "1.prems" "1.IH" by (subst chunks_from.simps) simp
    show ?thesis
    proof (cases "i + B \<le> length xs")
      case le: True
      define m where "m = length xs - (i + B) + B - 1"
      have "length xs - i + B - 1 = m + B"
        using le "1.prems" by (simp add: m_def)
      moreover have "(m + B) div B = Suc (m div B)"
        using "1.prems" div_add_self2 [of B m] by simp
      ultimately show ?thesis
        using step by (simp only: m_def)
    next
      case gt: False
      have "(length xs - (i + B) + B - 1) div B = 0"
        using gt "1.prems" by simp
      moreover have "(length xs - i + B - 1) div B = 1"
        using gt True "1.prems" by (intro div_nat_eqI) auto
      ultimately show ?thesis
        using step by simp
    qed
  next
    case False
    with \<open>0 < B\<close> have "(length xs - i + B - 1) div B = 0" by simp
    with False show ?thesis by (subst chunks_from.simps) simp
  qed
qed

lemma nth_chunks_from:
  "0 < B \<Longrightarrow> j < length (chunks_from B xs i) \<Longrightarrow>
     chunks_from B xs i ! j = take B (drop (i + j * B) xs)"
proof (induction B xs i arbitrary: j rule: chunks_from.induct)
  case (1 B xs i)
  show ?case
  proof (cases "i < length xs")
    case True
    have unfold: "chunks_from B xs i = take B (drop i xs) # chunks_from B xs (i + B)"
      using True "1.prems"(1) by (subst chunks_from.simps) simp
    show ?thesis
    proof (cases j)
      case 0
      then show ?thesis by (simp add: unfold)
    next
      case (Suc j')
      then have "j' < length (chunks_from B xs (i + B))"
        using "1.prems"(2) by (simp add: unfold)
      then have "chunks_from B xs (i + B) ! j' = take B (drop (i + B + j' * B) xs)"
        using "1.IH" True "1.prems"(1) by simp
      then show ?thesis
        by (simp add: unfold Suc add.assoc)
    qed
  next
    case False
    then have "chunks_from B xs i = []" by (subst chunks_from.simps) simp
    with "1.prems"(2) show ?thesis by simp
  qed
qed

lemma length_nth_chunks_from:
  assumes "0 < B" "j < length (chunks_from B xs 0)"
  shows "length (chunks_from B xs 0 ! j) = min B (length xs - j * B)"
  using nth_chunks_from [OF assms] by simp

lemma full_chunks:
  assumes "0 < B" "Suc j < (n + B - 1) div B"
  shows "Suc j * B \<le> n"
proof -
  from assms have "Suc (Suc j) \<le> (n + B - 1) div B" by simp
  then have "Suc (Suc j) * B \<le> n + B - 1"
    using assms(1) by (simp add: less_eq_div_iff_mult_less_eq)
  then show ?thesis using assms(1) by simp
qed

lemma last_chunk_length:
  assumes "0 < B" "0 < (n::nat)"
  shows "n - ((n + B - 1) div B - 1) * B = (if n mod B = 0 then B else n mod B)"
proof -
  obtain m where n: "n = Suc m" using assms(2) by (cases n) auto
  have "(n + B - 1) div B = Suc (m div B)"
    using assms(1) div_add_self2 [of B m] by (simp add: n)
  then have "n - ((n + B - 1) div B - 1) * B = Suc m - (m div B) * B" by (simp add: n)
  also have "\<dots> = Suc (m mod B)"
    by (metis Suc_diff_le div_mult_mod_eq add_diff_cancel_left' le_add1 mult.commute minus_mult_div_eq_mod times_div_less_eq_dividend)
  also have "\<dots> = (if n mod B = 0 then B else n mod B)"
    by (simp add: n mod_Suc)
  finally show ?thesis .
qed

lemma chunkArray_loop_nonpos:
  assumes run: "chunkArray_loop xs B i acc = Some r"
  shows "B \<le> 0 \<longrightarrow> int (length xs) \<le> i"
proof (rule chunkArray_loop.raw_induct
    [where P = "\<lambda>xs B i acc r. B \<le> 0 \<longrightarrow> int (length xs) \<le> i", OF _ run])
  fix loop :: "'a list \<Rightarrow> int \<Rightarrow> int \<Rightarrow> 'a list list \<Rightarrow> 'a list list option"
  fix array size' i chunks r
  assume IH: "\<And>array size' i chunks r.
      loop array size' i chunks = Some r \<Longrightarrow> size' \<le> 0 \<longrightarrow> int (length array) \<le> i"
  assume body: "(if i < int (length array)
      then loop array size' (i + size') (chunks @ [slice array i (i + size')])
      else Some chunks) = Some r"
  show "size' \<le> 0 \<longrightarrow> int (length array) \<le> i"
  proof
    assume np: "size' \<le> 0"
    show "int (length array) \<le> i"
    proof (rule ccontr)
      assume "\<not> int (length array) \<le> i"
      then have lt: "i < int (length array)" by simp
      with body have "loop array size' (i + size') (chunks @ [slice array i (i + size')]) = Some r"
        by simp
      from IH [OF this] np have "int (length array) \<le> i + size'" by simp
      with lt np show False by simp
    qed
  qed
qed

lemma chunkArray_nonpos: "B \<le> 0 \<Longrightarrow> xs \<noteq> [] \<Longrightarrow> chunkArray xs B = None"
proof (rule ccontr)
  assume a: "B \<le> 0" "xs \<noteq> []" "chunkArray xs B \<noteq> None"
  then obtain r where "chunkArray_loop xs B 0 [] = Some r"
    by (auto simp: chunkArray_def)
  from chunkArray_loop_nonpos [OF this] a(1,2) show False by simp
qed

lemma chunkArray_empty: "chunkArray [] B = Some []"
  by (simp add: chunkArray_def chunkArray_loop.simps)
subsection \<open>The loop on the store\<close>

lemma store_loop_pos:
  "0 < B \<Longrightarrow> a < length h \<Longrightarrow> c < length h \<Longrightarrow> h ! a = IdArray xs \<Longrightarrow> h ! c = RefArray ps \<Longrightarrow>
   \<exists>h' qs. chunkArray_store_loop h a (int B) c (int i) = Some h'
      \<and> length h \<le> length h'
      \<and> (\<forall>q<length h. q \<noteq> c \<longrightarrow> h' ! q = h ! q)
      \<and> h' ! c = RefArray (ps @ qs)
      \<and> map (elems h') qs = chunks_from B xs i"
proof (induction B xs i arbitrary: h ps rule: chunks_from.induct)
  case (1 B xs i)
  have ex: "elems h a = xs"
    using "1.prems" by (simp add: elems_def)
  show ?case
  proof (cases "i < length xs")
    case False
    then have "chunkArray_store_loop h a (int B) c (int i) = Some h"
      by (subst chunkArray_store_loop.simps) (simp add: ex)
    moreover have "chunks_from B xs i = []"
      using False by (subst chunks_from.simps) simp
    ultimately show ?thesis
      using "1.prems" by (intro exI [of _ h] exI [of _ "[]"]) simp
  next
    case True
    define chunk where "chunk = take B (drop i xs)"
    define p where "p = length h"
    define h2 where "h2 = (h @ [IdArray chunk])[c := RefArray (ps @ [p])]"
    have sl: "slice xs (int i) (int i + int B) = chunk"
      using slice_chunk [of B i xs] True "1.prems"(1) by (simp add: chunk_def)
    have ne: "a \<noteq> c"
      using "1.prems" by auto
    have step: "chunkArray_store_loop h a (int B) c (int i) =
        chunkArray_store_loop h2 a (int B) c (int (i + B))"
      using True "1.prems"
      by (subst chunkArray_store_loop.simps)
        (simp add: ex sl alloc_def push_def h2_def p_def nth_append)
    have pre: "a < length h2" "c < length h2" "h2 ! a = IdArray xs" "h2 ! c = RefArray (ps @ [p])"
      using "1.prems" ne by (simp_all add: h2_def nth_append)
    from "1.IH" [OF _ "1.prems"(1) pre] True "1.prems"(1)
    obtain h' qs where r: "chunkArray_store_loop h2 a (int B) c (int (i + B)) = Some h'"
        "length h2 \<le> length h'" "\<forall>q<length h2. q \<noteq> c \<longrightarrow> h' ! q = h2 ! q"
        "h' ! c = RefArray ((ps @ [p]) @ qs)" "map (elems h') qs = chunks_from B xs (i + B)"
      by auto
    have lh2: "length h2 = Suc (length h)"
      by (simp add: h2_def)
    have pc: "p \<noteq> c" "p < length h2"
      using "1.prems" by (simp_all add: p_def lh2)
    have "h' ! p = IdArray chunk"
      using r(3) pc by (simp add: h2_def p_def nth_append)
    then have ep: "elems h' p = chunk"
      using pc r(2) by (simp add: elems_def)
    have frame: "\<forall>q<length h. q \<noteq> c \<longrightarrow> h' ! q = h ! q"
      using r(3) by (simp add: lh2 h2_def nth_append)
    have cf: "chunks_from B xs i = chunk # chunks_from B xs (i + B)"
      using True "1.prems"(1) by (subst chunks_from.simps) (simp add: chunk_def)
    show ?thesis
      using step r(1,2,4,5) ep frame lh2 cf
      by (intro exI [of _ h'] exI [of _ "p # qs"]) simp
  qed
qed


lemma store_loop_nonpos:
  assumes run: "chunkArray_store_loop h a B c i = Some r"
  shows "B \<le> 0 \<and> a < length h \<and> c < length h \<and> a \<noteq> c \<and> (\<exists>ps. h ! c = RefArray ps)
           \<longrightarrow> int (length (elems h a)) \<le> i"
proof (rule chunkArray_store_loop.raw_induct
    [where P = "\<lambda>h a B c i r. B \<le> 0 \<and> a < length h \<and> c < length h \<and> a \<noteq> c
        \<and> (\<exists>ps. h ! c = RefArray ps) \<longrightarrow> int (length (elems h a)) \<le> i", OF _ run])
  fix loop :: "'a store \<Rightarrow> nat \<Rightarrow> int \<Rightarrow> nat \<Rightarrow> int \<Rightarrow> 'a store option"
  fix h a B c i r
  assume IH: "\<And>h a B c i r. loop h a B c i = Some r \<Longrightarrow>
      B \<le> 0 \<and> a < length h \<and> c < length h \<and> a \<noteq> c \<and> (\<exists>ps. h ! c = RefArray ps)
        \<longrightarrow> int (length (elems h a)) \<le> i"
  assume body: "(if i < int (length (elems h a))
      then (case alloc h (IdArray (slice (elems h a) i (i + B))) of
              (p, h1) \<Rightarrow> loop (push h1 c p) a B c (i + B))
      else Some h) = Some r"
  show "B \<le> 0 \<and> a < length h \<and> c < length h \<and> a \<noteq> c \<and> (\<exists>ps. h ! c = RefArray ps)
          \<longrightarrow> int (length (elems h a)) \<le> i"
  proof
    assume pre: "B \<le> 0 \<and> a < length h \<and> c < length h \<and> a \<noteq> c \<and> (\<exists>ps. h ! c = RefArray ps)"
    then obtain ps where ps: "h ! c = RefArray ps" by blast
    define h2 where "h2 = push (snd (alloc h (IdArray (slice (elems h a) i (i + B))))) c
                  (fst (alloc h (IdArray (slice (elems h a) i (i + B)))))"
    have h2: "h2 = (h @ [IdArray (slice (elems h a) i (i + B))])[c := RefArray (ps @ [length h])]"
      using pre ps by (simp add: h2_def alloc_def push_def nth_append)
    have pre2: "B \<le> 0 \<and> a < length h2 \<and> c < length h2 \<and> a \<noteq> c \<and> (\<exists>ps. h2 ! c = RefArray ps)"
      using pre by (simp add: h2)
    have same: "elems h2 a = elems h a"
      using pre by (simp add: h2 elems_def nth_append)
    show "int (length (elems h a)) \<le> i"
    proof (rule ccontr)
      assume "\<not> int (length (elems h a)) \<le> i"
      then have lt: "i < int (length (elems h a))" by simp
      with body have "loop h2 a B c (i + B) = Some r"
        by (simp add: h2_def alloc_def)
      from IH [OF this] pre2 have "int (length (elems h2 a)) \<le> i + B" by blast
      with lt pre same show False by simp
    qed
  qed
qed

lemma chunkArray_store_nonpos:
  assumes "B \<le> 0" "a < length h" "h ! a = IdArray xs" "xs \<noteq> []"
  shows "chunkArray_store h a B = None"
proof (rule ccontr)
  assume "chunkArray_store h a B \<noteq> None"
  then obtain r where r: "chunkArray_store_loop (h @ [RefArray []]) a B (length h) 0 = Some r"
    by (auto simp: chunkArray_store_def alloc_def)
  have "int (length (elems (h @ [RefArray []]) a)) \<le> 0"
    using store_loop_nonpos [OF r] assms(1,2) by simp
  moreover have "elems (h @ [RefArray []]) a = xs"
    using assms(2,3) by (simp add: elems_def nth_append)
  ultimately show False using assms(4) by simp
qed

lemma chunkArray_store_empty:
  assumes "a < length h" "h ! a = IdArray []"
  shows "chunkArray_store h a B = Some (length h, h @ [RefArray []])"
proof -
  have "elems (h @ [RefArray []]) a = []"
    using assms by (simp add: elems_def nth_append)
  then show ?thesis
    by (simp add: chunkArray_store_def alloc_def chunkArray_store_loop.simps)
qed

lemma chunkArray_store_pos:
  assumes "0 < B" "a < length h" "h ! a = IdArray xs"
  shows "\<exists>h'. chunkArray_store h a (int B) = Some (length h, h')
     \<and> length h < length h'
     \<and> (\<forall>q<length h. h' ! q = h ! q)
     \<and> batches h' (length h) = chunks_from B xs 0"
proof -
  define h0 where "h0 = h @ [RefArray []]"
  have pre: "a < length h0" "length h < length h0" "h0 ! a = IdArray xs"
    "h0 ! length h = RefArray []"
    using assms by (simp_all add: h0_def nth_append)
  from store_loop_pos [OF assms(1) pre, of 0]
  obtain h' qs where r: "chunkArray_store_loop h0 a (int B) (length h) 0 = Some h'"
      "length h0 \<le> length h'" "\<forall>q<length h0. q \<noteq> length h \<longrightarrow> h' ! q = h0 ! q"
      "h' ! length h = RefArray ([] @ qs)" "map (elems h') qs = chunks_from B xs 0"
    by auto
  have run: "chunkArray_store h a (int B) = Some (length h, h')"
    using r(1) by (simp add: chunkArray_store_def alloc_def h0_def)
  have len: "length h < length h'"
    using r(2) by (simp add: h0_def)
  have frame: "\<forall>q<length h. h' ! q = h ! q"
    using r(3) by (simp add: h0_def nth_append)
  have res: "batches h' (length h) = chunks_from B xs 0"
    using r(4,5) len by (simp add: batches_def)
  show ?thesis using run len frame res by blast
qed


section \<open>Properties of property reads and of the token step\<close>

lemma getProp_optProp:
  "v \<noteq> JNull \<Longrightarrow> v \<noteq> JUndefined \<Longrightarrow> getProp v name = Inr (optProp v name)"
  by (cases v) simp_all

lemma getProp_Inr: "getProp v name = Inr x \<Longrightarrow> x = optProp v name"
  by (cases v) auto

lemma getProp_Inl: "getProp v name = Inl err \<Longrightarrow> optProp v name = JUndefined"
  by (cases v) auto

lemma toString_JStr: "toString (JStr t) = Inr t"
  by simp

lemma generateUToken_fails:
  assumes "credentialFails e"
  shows "\<exists>err. generateUToken e appKey secretKey s =
           ((logToScreen GeneratingToken False s)
              \<lparr>sent := sent s @ [TokenRequest appKey secretKey]\<rparr>, Inl (Thrown err))
     \<and> (\<forall>r data t. tokenFetch e = Resolves r \<and> \<not> ok r \<and> json r = Inr data
            \<and> truthy (optProp data ''error_description'')
            \<and> toString (optProp data ''error_description'') = Inr t \<longrightarrow>
          err = ''Token generation failed: '' @ t)
     \<and> (\<forall>r data. tokenFetch e = Resolves r \<and> \<not> ok r \<and> json r = Inr data
            \<and> data \<noteq> JNull \<and> data \<noteq> JUndefined
            \<and> \<not> truthy (optProp data ''error_description'') \<longrightarrow>
          err = ''Token generation failed: '' @ statusText r)
     \<and> (\<forall>r data. tokenFetch e = Resolves r \<and> ok r \<and> json r = Inr data
            \<and> data \<noteq> JNull \<and> data \<noteq> JUndefined \<longrightarrow>
          err = ''Token not found in authentication response.'')"
proof (cases "tokenFetch e")
  case (Rejects m)
  then show ?thesis
    by (simp add: generateUToken_def Let_def logToScreen_def)
next
  case (Resolves r)
  show ?thesis
  proof (cases "json r")
    case (Inl m)
    with Resolves show ?thesis
      by (simp add: generateUToken_def Let_def logToScreen_def)
  next
    case (Inr data)
    show ?thesis
    proof (cases "ok r")
      case False
      show ?thesis
      proof (cases "getProp data ''error_description''")
        case (Inl err)
        from getProp_Inl [OF this] have nt: "\<not> truthy (optProp data ''error_description'')"
          by simp
        from Inl have "data = JNull \<or> data = JUndefined"
          by (cases data) auto
        with Resolves Inr False Inl nt show ?thesis
          by (cases err) (auto simp: generateUToken_def Let_def logToScreen_def)
      next
        case d: (Inr d)
        from getProp_Inr [OF this] have d_eq: "d = optProp data ''error_description''" .
        show ?thesis
        proof (cases "truthy d")
          case True
          show ?thesis
          proof (cases "toString d")
            case (Inl err)
            with Resolves Inr False d d_eq True show ?thesis
              by (cases err) (simp add: generateUToken_def Let_def logToScreen_def)
          next
            case t: (Inr t)
            with Resolves Inr False d d_eq True show ?thesis
              by (simp add: generateUToken_def Let_def logToScreen_def)
          qed
        next
          case nt: False
          with Resolves Inr False d d_eq show ?thesis
            by (simp add: generateUToken_def Let_def logToScreen_def)
        qed
      qed
    next
      case True
      with assms Resolves Inr have nt: "\<not> truthy (optProp data ''access_token'')"
        by (simp add: credentialFails_def)
      show ?thesis
      proof (cases "getProp data ''access_token''")
        case (Inl err)
        then have "data = JNull \<or> data = JUndefined"
          by (cases data) auto
        with Resolves Inr True Inl show ?thesis
          by (cases err) (auto simp: generateUToken_def Let_def logToScreen_def)
      next
        case t: (Inr t)
        from getProp_Inr [OF this] nt have "\<not> truthy t" by simp
        with Resolves Inr True t show ?thesis
          by (simp add: generateUToken_def Let_def logToScreen_def)
      qed
    qed
  qed
qed

section \<open>Properties of the loop over the batches\<close>

lemma batchTryCatch_eq:
  "batchTryCatch fr n b s =
     (if batchSucceeds fr
      then succeeded n b s else failed n b (failureMessage fr) s)"
  by (simp add: batchTryCatch_def batchTry_def batchSucceeds_def failureMessage_def
      succeeded_def failed_def
      split: fetch_result.splits sum.splits)

lemma batchIteration_eq:
  "batchIteration e u a cs i s =
     s\<lparr>sent := sent s @ [PurchasesDelete a u (cs ! i)],
       logOutput := logOutput s @
         [(ProcessingBatch (i + 1) (length cs), False),
          (if batchSucceeds (batchFetch e i) then (BatchSuccess (i + 1), False)
           else (BatchFailed (i + 1) (failureMessage (batchFetch e i)), True))],
       totalSuccessCount := totalSuccessCount s +
         (if batchSucceeds (batchFetch e i) then length (cs ! i) else 0),
       totalFailCount := totalFailCount s +
         (if batchSucceeds (batchFetch e i) then 0 else length (cs ! i)),
       processedIdCount := processedIdCount s + length (cs ! i)\<rparr>"
  by (simp add: batchIteration_def batchTryCatch_eq succeeded_def failed_def logToScreen_def
      Let_def)

lemma iterations_0 [simp]: "iterations e u a cs 0 s = s"
  by (simp add: iterations_def)

lemma iterations_Suc:
  "iterations e u a cs (Suc k) s = batchIteration e u a cs k (iterations e u a cs k s)"
  by (simp add: iterations_def)

lemma sent_iterations:
  "k \<le> length cs \<Longrightarrow>
     sent (iterations e u a cs k s) = sent s @ map (PurchasesDelete a u) (take k cs)"
  by (induction k) (simp_all add: iterations_Suc batchIteration_eq take_Suc_conv_app_nth)

lemma processed_iterations:
  "k \<le> length cs \<Longrightarrow>
     processedIdCount (iterations e u a cs k s) =
       processedIdCount s + sum_list (map length (take k cs))"
  by (induction k) (simp_all add: iterations_Suc batchIteration_eq take_Suc_conv_app_nth)

lemma success_iterations:
  "totalSuccessCount (iterations e u a cs k s) = totalSuccessCount s + succeededIn e cs k"
  by (induction k) (simp_all add: iterations_Suc batchIteration_eq succeededIn_def)

lemma fail_iterations:
  "totalFailCount (iterations e u a cs k s) = totalFailCount s + failedIn e cs k"
  by (induction k) (simp_all add: iterations_Suc batchIteration_eq failedIn_def)

lemma succeeded_failed_sum:
  "k \<le> length cs \<Longrightarrow> succeededIn e cs k + failedIn e cs k = sum_list (map length (take k cs))"
  by (induction k) (simp_all add: succeededIn_def failedIn_def take_Suc_conv_app_nth)

lemma batchLoop_end: "batchLoop e u a cs (length cs) s = s"
  by (subst batchLoop.simps) simp

lemma batchLoop_cancelled:
  "k < length cs \<Longrightarrow> isCancelled e k \<Longrightarrow>
     batchLoop e u a cs k s = logToScreen ProcessCancelled True s"
  by (subst batchLoop.simps) simp

lemma batchLoop_step:
  "k < length cs \<Longrightarrow> \<not> isCancelled e k \<Longrightarrow>
     batchLoop e u a cs k s = batchLoop e u a cs (Suc k) (batchIteration e u a cs k s)"
  by (subst batchLoop.simps) simp

lemma batchLoop_prefix:
  "k \<le> length cs \<Longrightarrow> (\<forall>j<k. \<not> isCancelled e j) \<Longrightarrow>
     batchLoop e u a cs 0 s = batchLoop e u a cs k (iterations e u a cs k s)"
proof (induction k)
  case 0
  then show ?case by simp
next
  case (Suc k)
  then have "batchLoop e u a cs 0 s = batchLoop e u a cs k (iterations e u a cs k s)"
    by simp
  also have "\<dots> = batchLoop e u a cs (Suc k) (batchIteration e u a cs k (iterations e u a cs k s))"
    using Suc.prems by (intro batchLoop_step) simp_all
  finally show ?case by (simp add: iterations_Suc)
qed

lemma batchLoop_result:
  assumes "k \<le> length cs" "\<forall>j<k. \<not> isCancelled e j" "k < length cs \<longrightarrow> isCancelled e k"
  shows "batchLoop e u a cs 0 s =
     (if k < length cs then logToScreen ProcessCancelled True (iterations e u a cs k s)
      else iterations e u a cs k s)"
proof (cases "k < length cs")
  case True
  then show ?thesis
    using assms batchLoop_prefix [OF assms(1,2)] by (simp add: batchLoop_cancelled)
next
  case False
  with assms(1) have "k = length cs" by simp
  then show ?thesis
    using batchLoop_prefix [OF assms(1,2)] by (simp add: batchLoop_end)
qed



section \<open>Properties of the estimated time remaining\<close>

lemma etrMs_zero: "etrMs 0 n e \<noteq> Finite v"
  by (simp add: etrMs_def jsDivide_def Let_def)

lemma etrMs_pos:
  "0 < p \<Longrightarrow> etrMs p n e = Finite ((of_nat n - of_nat p) * (of_int e / of_nat p))"
  by (simp add: etrMs_def jsDivide_def Let_def)

lemma round_bound:
  fixes v :: rat
  shows "\<bar>1000 * of_int \<lfloor>v / 1000 + 1 / 2\<rfloor> - v\<bar> \<le> 500"
proof -
  define x where "x = v / 1000 + 1 / 2"
  have "of_int \<lfloor>x\<rfloor> \<le> x" "x < of_int \<lfloor>x\<rfloor> + 1"
    by linarith+
  then show ?thesis
    unfolding x_def by (simp add: abs_le_iff field_simps)
qed

section \<open>The example run, evaluated\<close>

lemma exampleChunks:
  "chunkArray exampleIds 5 =
     Some [[''1001'', ''1002'', ''1003'', ''1004'', ''1005''],
           [''1006'', ''1007'', ''1008'', ''1009'', ''1010''], [''1011'', ''1012'']]"
  by (simp add: exampleIds_def chunkArray_def chunkArray_loop.simps slice_def)

lemma exampleRun:
  "invalidateOrdersInBatchesWith 5 exampleEnv (JStr ''tok'') ''app'' exampleIds newSession =
     Some \<lparr>totalSuccessCount = 7, totalFailCount = 5, processedIdCount = 12,
       sent =
         [PurchasesDelete ''app'' (JStr ''tok'') [''1001'', ''1002'', ''1003'', ''1004'', ''1005''],
          PurchasesDelete ''app'' (JStr ''tok'') [''1006'', ''1007'', ''1008'', ''1009'', ''1010''],
          PurchasesDelete ''app'' (JStr ''tok'') [''1011'', ''1012'']],
       logOutput =
         [(StartingInvalidation 12 5, False),
          (ProcessingBatch 1 3, False), (BatchSuccess 1, False),
          (ProcessingBatch 2 3, False), (BatchFailed 2 ''rate limited'', True),
          (ProcessingBatch 3 3, False), (BatchSuccess 3, False),
          (ProcessingComplete, False), (Summary 7 5, False), (TotalTime, False)]\<rparr>"
  by code_simp

lemma exampleStoreRun:
  "chunkArray_store [IdArray [''1001'', ''1002'', ''1003'', ''1004'', ''1005'']] 0 2 =
     Some (1, [IdArray [''1001'', ''1002'', ''1003'', ''1004'', ''1005''], RefArray [2, 3, 4],
               IdArray [''1001'', ''1002''], IdArray [''1003'', ''1004''], IdArray [''1005'']])"
  by code_simp

section \<open>Claims about the partitioner\<close>

text \<open>
  C1. For every identifier list of length \<open>n\<close> and every chunk size \<open>B > 0\<close>,
  \<^verbatim>\<open>chunkArray\<close> returns, and it returns \<open>ceil(n/B) = (n + B - 1) div B\<close> batches
  whose lengths sum to \<open>n\<close> and whose concatenation in order is the original list.
  Every batch but the last has exactly \<open>B\<close> identifiers; the last one has
  \<open>n mod B\<close> of them, or \<open>B\<close> when \<open>B\<close> divides \<open>n\<close> and \<open>n > 0\<close>.
\<close>

theorem chunkArray_partition:
  assumes "0 < B"
  shows "\<exists>chunks. chunkArray array B = Some chunks
     \<and> length chunks = (length array + nat B - 1) div nat B
     \<and> sum_list (map length chunks) = length array
     \<and> concat chunks = array
     \<and> (\<forall>j. Suc j < length chunks \<longrightarrow> length (chunks ! j) = nat B)
     \<and> (array \<noteq> [] \<longrightarrow> chunks \<noteq> [] \<and>
          length (last chunks) =
            (if length array mod nat B = 0 then nat B else length array mod nat B))"
proof -
  define b where "b = nat B"
  define cs where "cs = chunks_from b array 0"
  have b: "0 < b" "B = int b" using assms by (simp_all add: b_def)
  have run: "chunkArray array B = Some cs"
    using chunkArray_pos [OF b(1)] by (simp add: b cs_def)
  have len: "length cs = (length array + b - 1) div b"
    using length_chunks_from [OF b(1), of array 0] by (simp add: cs_def)
  have cat: "concat cs = array"
    using concat_chunks_from [OF b(1), of array 0] by (simp add: cs_def)
  have total: "sum_list (map length cs) = length array"
    using cat by (metis length_concat)
  have full: "length (cs ! j) = b" if "Suc j < length cs" for j
  proof -
    have "Suc j * b \<le> length array"
      using full_chunks [OF b(1)] that by (simp add: len)
    moreover have "length (cs ! j) = min b (length array - j * b)"
      using length_nth_chunks_from [OF b(1), of j array] that by (simp add: cs_def)
    ultimately show ?thesis by simp
  qed
  have final: "cs \<noteq> [] \<and> length (last cs) = (if length array mod b = 0 then b else length array mod b)"
    if "array \<noteq> []"
  proof -
    from that have n: "0 < length array" by simp
    have "b \<le> length array + b - 1"
      using that by (cases array) simp_all
    then have "0 < length cs"
      using b(1) by (simp add: len div_greater_zero_iff)
    then have ne: "cs \<noteq> []" by auto
    have "length (last cs) = length (cs ! (length cs - 1))"
      using ne by (simp add: last_conv_nth)
    also have "\<dots> = min b (length array - (length cs - 1) * b)"
      using length_nth_chunks_from [OF b(1), of "length cs - 1" array] \<open>0 < length cs\<close>
      by (simp add: cs_def)
    also have "length array - (length cs - 1) * b = (if length array mod b = 0 then b else length array mod b)"
      using last_chunk_length [OF b(1) n] by (simp add: len)
    finally have "length (last cs) =
        min b (if length array mod b = 0 then b else length array mod b)" .
    moreover have "length array mod b < b"
      using b(1) by simp
    ultimately show ?thesis using ne by (simp add: min_def)
  qed
  show ?thesis
    using run len total cat full final unfolding b_def by blast
qed

theorem chunkArray_partition_witness:
  "(0::int) < 5 \<and>
   (\<exists>chunks. chunkArray [1, 2, 3, 4, 5, 6, 7, 8, 9, 10, 11, 12 :: nat] 5 = Some chunks
      \<and> chunks = [[1, 2, 3, 4, 5], [6, 7, 8, 9, 10], [11, 12]]
      \<and> length chunks = 3
      \<and> length (chunks ! 0) = 5 \<and> length (chunks ! 1) = 5
      \<and> sum_list (map length chunks) = 12
      \<and> concat chunks = [1, 2, 3, 4, 5, 6, 7, 8, 9, 10, 11, 12]
      \<and> length (last chunks) = 2)"
proof -
  have ev: "chunkArray [1, 2, 3, 4, 5, 6, 7, 8, 9, 10, 11, 12 :: nat] 5 =
     Some [[1, 2, 3, 4, 5], [6, 7, 8, 9, 10], [11, 12]]"
    by (simp add: chunkArray_def chunkArray_loop.simps slice_def)
  have h: "(0::int) < 5" by simp
  show ?thesis
    using chunkArray_partition [OF h, of "[1, 2, 3, 4, 5, 6, 7, 8, 9, 10, 11, 12 :: nat]"] ev
    by simp
qed

text \<open>
  C7 (as amended). No chunk size is ever rejected: the size is the constant
  \<open>BATCH_SIZE = 5000\<close>, nothing checks it, and with it \<^verbatim>\<open>chunkArray\<close> and
  \<^verbatim>\<open>invalidateOrdersInBatches\<close> always return. \<^verbatim>\<open>chunkArray\<close> itself has no guard: with a
  size that is zero or negative it never returns on a list that is not empty, and returns
  no batch on the empty list.
\<close>

theorem chunk_size_is_fixed:
  "0 < BATCH_SIZE
   \<and> (\<exists>cs. chunkArray allOrderIds BATCH_SIZE = Some cs)
   \<and> (\<exists>s'. invalidateOrdersInBatches e u a allOrderIds s = Some s')
   \<and> (B \<le> 0 \<and> allOrderIds \<noteq> [] \<longrightarrow> chunkArray allOrderIds B = None)
   \<and> (B \<le> 0 \<and> allOrderIds = [] \<longrightarrow> chunkArray allOrderIds B = Some [])"
proof -
  have pos: "0 < BATCH_SIZE" by (simp add: BATCH_SIZE_def)
  have chunks: "\<exists>cs. chunkArray allOrderIds BATCH_SIZE = Some cs"
    using chunkArray_pos [of "nat BATCH_SIZE" allOrderIds] pos by auto
  then have run: "\<exists>s'. invalidateOrdersInBatches e u a allOrderIds s = Some s'"
    by (auto simp: invalidateOrdersInBatches_def invalidateOrdersInBatchesWith_def Let_def)
  show ?thesis
    using pos chunks run chunkArray_nonpos [of B allOrderIds] chunkArray_empty [of B]
    by auto
qed

theorem chunk_size_is_fixed_witness:
  "(0::int) \<le> 0 \<and> [''1001''] \<noteq> ([] :: order_id list)
   \<and> chunkArray [''1001''] 0 = None
   \<and> (\<exists>cs. chunkArray [''1001''] BATCH_SIZE = Some cs)
   \<and> chunkArray ([] :: order_id list) 0 = Some []"
  using chunk_size_is_fixed [where allOrderIds = "[''1001'']" and B = 0]
    chunk_size_is_fixed [where allOrderIds = "[] :: order_id list" and B = 0]
  by simp

text \<open>
  C7 as stated fails: called with chunk size 0, or -5, the partitioner is not refused
  but started, and its loop never ends.
\<close>

theorem chunk_size_not_rejected_counterexample:
  "chunkArray [''1001''] 0 = None \<and> chunkArray [''1001''] (- 5) = None"
  using chunkArray_nonpos [of 0 "[''1001'']"] chunkArray_nonpos [of "- 5" "[''1001'']"]
  by simp


text \<open>
  C9. The partitioner has no effect on what it is given, and its result is a function of
  the identifiers and the chunk size alone. On the store: the call allocates new arrays
  only and leaves every array that existed before as it was, the input among them; the
  batches it returns are those of \<open>chunkArray\<close> on the identifiers; and a second call
  on the same array, in the store the first call has left, returns the same batches
  again. When \<open>chunkArray\<close> does not return, neither does the call on the store. The
  loop reads and writes arrays only: there is no input or output in it.
\<close>

theorem chunkArray_leaves_its_input:
  assumes "array < length h" and "h ! array = IdArray xs"
  shows "(case chunkArray xs B of
            None \<Rightarrow> chunkArray_store h array B = None
          | Some cs \<Rightarrow>
              (\<exists>h' h2. chunkArray_store h array B = Some (length h, h')
                 \<and> batches h' (length h) = cs
                 \<and> (\<forall>q<length h. h' ! q = h ! q)
                 \<and> chunkArray_store h' array B = Some (length h', h2)
                 \<and> batches h2 (length h') = cs
                 \<and> (\<forall>q<length h'. h2 ! q = h' ! q)))"
proof (cases "0 < B")
  case True
  define b where "b = nat B"
  have b: "0 < b" "B = int b" using True by (simp_all add: b_def)
  have pure: "chunkArray xs B = Some (chunks_from b xs 0)"
    using chunkArray_pos [OF b(1)] by (simp add: b(2))
  from chunkArray_store_pos [OF b(1) assms]
  obtain h' where 1: "chunkArray_store h array (int b) = Some (length h, h')"
      "length h < length h'" "\<forall>q<length h. h' ! q = h ! q"
      "batches h' (length h) = chunks_from b xs 0"
    by blast
  have again: "array < length h'" "h' ! array = IdArray xs"
    using assms 1(2,3) by simp_all
  from chunkArray_store_pos [OF b(1) again]
  obtain h2 where 2: "chunkArray_store h' array (int b) = Some (length h', h2)"
      "\<forall>q<length h'. h2 ! q = h' ! q" "batches h2 (length h') = chunks_from b xs 0"
    by blast
  show ?thesis
    unfolding pure using 1 2 by (simp add: b(2))
next
  case False
  then have np: "B \<le> 0" by simp
  show ?thesis
  proof (cases "xs = []")
    case True
    have pure: "chunkArray xs B = Some []"
      using True by (simp add: chunkArray_empty)
    define h' where "h' = h @ [RefArray []]"
    have 1: "chunkArray_store h array B = Some (length h, h')"
      using chunkArray_store_empty [of array h B] assms True by (simp add: h'_def)
    have again: "array < length h'" "h' ! array = IdArray []"
      using assms True by (simp_all add: h'_def nth_append)
    have 2: "chunkArray_store h' array B = Some (length h', h' @ [RefArray []])"
      using chunkArray_store_empty [OF again] .
    have b1: "batches h' (length h) = []"
      by (simp add: batches_def h'_def)
    have b2: "batches (h' @ [RefArray []]) (length h') = []"
      by (simp add: batches_def)
    have f1: "\<forall>q<length h. h' ! q = h ! q"
      by (simp add: h'_def nth_append)
    have f2: "\<forall>q<length h'. (h' @ [RefArray []]) ! q = h' ! q"
      by (simp add: nth_append)
    show ?thesis
      unfolding pure using 1 2 b1 b2 f1 f2 by simp
  next
    case False
    have "chunkArray xs B = None"
      using chunkArray_nonpos [OF np False] .
    moreover have "chunkArray_store h array B = None"
      using chunkArray_store_nonpos [OF np assms False] .
    ultimately show ?thesis by simp
  qed
qed

theorem chunkArray_leaves_its_input_witness:
  "chunkArray [''1001'', ''1002'', ''1003'', ''1004'', ''1005''] 2 =
     Some [[''1001'', ''1002''], [''1003'', ''1004''], [''1005'']]
   \<and> (\<exists>h' h2.
         chunkArray_store [IdArray [''1001'', ''1002'', ''1003'', ''1004'', ''1005'']] 0 2 =
           Some (1, h')
       \<and> batches h' 1 = [[''1001'', ''1002''], [''1003'', ''1004''], [''1005'']]
       \<and> h' ! 0 = IdArray [''1001'', ''1002'', ''1003'', ''1004'', ''1005'']
       \<and> chunkArray_store h' 0 2 = Some (length h', h2)
       \<and> batches h2 (length h') = [[''1001'', ''1002''], [''1003'', ''1004''], [''1005'']]
       \<and> h2 ! 0 = IdArray [''1001'', ''1002'', ''1003'', ''1004'', ''1005''])"
proof -
  have pure: "chunkArray [''1001'', ''1002'', ''1003'', ''1004'', ''1005''] 2 =
     Some [[''1001'', ''1002''], [''1003'', ''1004''], [''1005'']]"
    by (simp add: chunkArray_def chunkArray_loop.simps slice_def)
  show ?thesis
    using chunkArray_leaves_its_input
      [where h = "[IdArray [''1001'', ''1002'', ''1003'', ''1004'', ''1005'']]" and array = 0
        and xs = "[''1001'', ''1002'', ''1003'', ''1004'', ''1005'']" and B = 2]
      pure exampleStoreRun
    by auto
qed

section \<open>Claims about the loop over the batches\<close>

text \<open>
  C2. When the cancellation flag is first read as set at the check between batch \<open>k\<close>
  and batch \<open>k + 1\<close> (the check of iteration \<open>k\<close>, counting from 0), the run sends
  exactly the first \<open>k\<close> batches and none of the later ones, and the counters and the
  summary are those of the first \<open>k\<close> batches. The flag is read only there, so the
  batch sent last is counted in full: nothing aborts a request under way.
\<close>

theorem cancellation_between_batches:
  assumes "chunkArray allOrderIds B = Some cs"
      and "k < length cs"
      and "\<forall>j<k. \<not> isCancelled e j"
      and "isCancelled e k"
  shows "\<exists>s'. invalidateOrdersInBatchesWith B e u a allOrderIds s = Some s'
     \<and> sent s' = sent s @ map (PurchasesDelete a u) (take k cs)
     \<and> processedIdCount s' = sum_list (map length (take k cs))
     \<and> totalSuccessCount s' = succeededIn e cs k
     \<and> totalFailCount s' = failedIn e cs k
     \<and> (\<exists>pre. logOutput s' = pre @
          [(ProcessCancelled, True), (ProcessingComplete, False),
           (Summary (succeededIn e cs k) (failedIn e cs k), False), (TotalTime, False)])"
proof -
  define s0 where "s0 = (logToScreen (StartingInvalidation (length allOrderIds) B) False s)
      \<lparr>totalSuccessCount := 0, totalFailCount := 0, processedIdCount := 0\<rparr>"
  define sk where "sk = iterations e u a cs k s0"
  have k: "k \<le> length cs" using assms(2) by simp
  have loop: "batchLoop e u a cs 0 s0 = logToScreen ProcessCancelled True sk"
    using batchLoop_result [OF k assms(3), of u a s0] assms(2,4) by (simp add: sk_def)
  have run: "invalidateOrdersInBatchesWith B e u a allOrderIds s =
      Some (logSummary (logToScreen ProcessCancelled True sk))"
    using assms(1) loop
    by (simp add: invalidateOrdersInBatchesWith_def processChunks_def s0_def Let_def)
  have sent: "sent sk = sent s @ map (PurchasesDelete a u) (take k cs)"
    unfolding sk_def by (simp add: sent_iterations [OF k] s0_def logToScreen_def)
  have processed: "processedIdCount sk = sum_list (map length (take k cs))"
    unfolding sk_def by (simp add: processed_iterations [OF k] s0_def)
  have success: "totalSuccessCount sk = succeededIn e cs k"
    unfolding sk_def by (simp add: success_iterations s0_def)
  have fail: "totalFailCount sk = failedIn e cs k"
    unfolding sk_def by (simp add: fail_iterations s0_def)
  show ?thesis
    unfolding run using sent processed success fail
    by (simp add: logSummary_def logToScreen_def)
qed


theorem cancellation_between_batches_witness:
  "chunkArray exampleIds 5 =
     Some [[''1001'', ''1002'', ''1003'', ''1004'', ''1005''],
           [''1006'', ''1007'', ''1008'', ''1009'', ''1010''], [''1011'', ''1012'']]
   \<and> \<not> isCancelled cancelledAfterTwo 0 \<and> \<not> isCancelled cancelledAfterTwo 1
   \<and> isCancelled cancelledAfterTwo 2
   \<and> (\<exists>s'. invalidateOrdersInBatchesWith 5 cancelledAfterTwo (JStr ''tok'') ''app'' exampleIds
              newSession = Some s'
        \<and> sent s' =
            [PurchasesDelete ''app'' (JStr ''tok'') [''1001'', ''1002'', ''1003'', ''1004'', ''1005''],
             PurchasesDelete ''app'' (JStr ''tok'') [''1006'', ''1007'', ''1008'', ''1009'', ''1010'']]
        \<and> processedIdCount s' = 10
        \<and> totalSuccessCount s' = 5
        \<and> totalFailCount s' = 5)"
proof -
  have c: "\<forall>j<2. \<not> isCancelled cancelledAfterTwo j" "isCancelled cancelledAfterTwo 2"
    by (simp_all add: cancelledAfterTwo_def)
  have two: "[0..<2] = [0, 1]"
    by (simp add: upt_rec)
  have s: "succeededIn cancelledAfterTwo
      [[''1001'', ''1002'', ''1003'', ''1004'', ''1005''],
       [''1006'', ''1007'', ''1008'', ''1009'', ''1010''], [''1011'', ''1012'']] 2 = 5"
    by (simp add: succeededIn_def two batchSucceeds_def cancelledAfterTwo_def exampleEnv_def
        noContent_def rateLimited_def)
  have f: "failedIn cancelledAfterTwo
      [[''1001'', ''1002'', ''1003'', ''1004'', ''1005''],
       [''1006'', ''1007'', ''1008'', ''1009'', ''1010''], [''1011'', ''1012'']] 2 = 5"
    by (simp add: failedIn_def two batchSucceeds_def cancelledAfterTwo_def exampleEnv_def
        noContent_def rateLimited_def)
  show ?thesis
    using cancellation_between_batches [OF exampleChunks _ c, where u = "JStr ''tok''"
        and a = "''app''" and s = newSession] exampleChunks c s f
    by (auto simp: newSession_def)
qed

text \<open>
  C4. A request of a batch that is rejected, that is answered with any status, or whose
  body does not parse, always ends the iteration with the batch counted as succeeded or
  as failed: the \<^verbatim>\<open>catch\<close> takes every exception of the \<^verbatim>\<open>try\<close> block. A run that is not
  cancelled therefore sends every batch, whatever the answers are.
\<close>

theorem batch_failures_are_contained:
  assumes "0 < B" and "\<forall>i. \<not> isCancelled e i"
  shows "(\<exists>cs s'. chunkArray allOrderIds B = Some cs
       \<and> invalidateOrdersInBatchesWith B e u a allOrderIds s = Some s'
       \<and> sent s' = sent s @ map (PurchasesDelete a u) cs
       \<and> processedIdCount s' = length allOrderIds
       \<and> totalSuccessCount s' + totalFailCount s' = length allOrderIds)
     \<and> (\<forall>m r n b st.
           batchTryCatch (Rejects m) n b st = failed n b (''Network error: '' @ m) st
         \<and> (\<exists>msg. batchTryCatch (Resolves r) n b st =
               (if status r = 200 \<or> status r = 204 then succeeded n b st else failed n b msg st))
         \<and> (status r \<noteq> 200 \<and> status r \<noteq> 204 \<and> json r = Inl m \<longrightarrow>
              batchTryCatch (Resolves r) n b st = failed n b (''HTTP '' @ show_nat (status r)) st))"
proof -
  define s0 where "s0 = (logToScreen (StartingInvalidation (length allOrderIds) B) False s)
      \<lparr>totalSuccessCount := 0, totalFailCount := 0, processedIdCount := 0\<rparr>"
  obtain cs where cs: "chunkArray allOrderIds B = Some cs" "cs = chunks_from (nat B) allOrderIds 0"
    using chunkArray_pos [of "nat B" allOrderIds] assms(1) by auto
  have cat: "concat cs = allOrderIds"
    using concat_chunks_from [of "nat B" allOrderIds 0] assms(1) cs(2) by simp
  define sl where "sl = iterations e u a cs (length cs) s0"
  have loop: "batchLoop e u a cs 0 s0 = sl"
    using batchLoop_result [of "length cs" cs e u a s0] assms(2) by (simp add: sl_def)
  have run: "invalidateOrdersInBatchesWith B e u a allOrderIds s = Some (logSummary sl)"
    using cs(1) loop
    by (simp add: invalidateOrdersInBatchesWith_def processChunks_def s0_def Let_def)
  have total: "sum_list (map length cs) = length allOrderIds"
    using cat by (metis length_concat)
  have sent: "sent sl = sent s @ map (PurchasesDelete a u) cs"
    unfolding sl_def by (simp add: sent_iterations s0_def logToScreen_def)
  have processed: "processedIdCount sl = length allOrderIds"
    unfolding sl_def by (simp add: processed_iterations s0_def total)
  have counts: "totalSuccessCount sl + totalFailCount sl = length allOrderIds"
    unfolding sl_def using succeeded_failed_sum [of "length cs" cs e]
    by (simp add: success_iterations fail_iterations s0_def total)
  have whole: "\<exists>cs s'. chunkArray allOrderIds B = Some cs
       \<and> invalidateOrdersInBatchesWith B e u a allOrderIds s = Some s'
       \<and> sent s' = sent s @ map (PurchasesDelete a u) cs
       \<and> processedIdCount s' = length allOrderIds
       \<and> totalSuccessCount s' + totalFailCount s' = length allOrderIds"
    unfolding run using cs(1) sent processed counts
    by (simp add: logSummary_def logToScreen_def)
  have rejected: "batchTryCatch (Rejects m) n b st = failed n b (''Network error: '' @ m) st"
    for m n b st
    by (simp add: batchTryCatch_eq batchSucceeds_def failureMessage_def)
  have resolved: "\<exists>msg. batchTryCatch (Resolves r) n b st =
        (if status r = 200 \<or> status r = 204 then succeeded n b st else failed n b msg st)"
    for r n b st
    by (auto simp: batchTryCatch_eq batchSucceeds_def)
  have unparsed: "batchTryCatch (Resolves r) n b st = failed n b (''HTTP '' @ show_nat (status r)) st"
    if "status r \<noteq> 200 \<and> status r \<noteq> 204 \<and> json r = Inl m" for r n b st m
    using that
    by (simp add: batchTryCatch_eq batchSucceeds_def failureMessage_def errorMessage_def
        errorData_def)
  show ?thesis
    using whole rejected resolved unparsed by blast
qed


theorem batch_failures_are_contained_witness:
  "(0::int) < 5 \<and> \<not> isCancelled exampleEnv 0 \<and> \<not> isCancelled exampleEnv 1
   \<and> \<not> isCancelled exampleEnv 2
   \<and> \<not> batchSucceeds (batchFetch exampleEnv 1)
   \<and> (\<exists>s'. invalidateOrdersInBatchesWith 5 exampleEnv (JStr ''tok'') ''app'' exampleIds
              newSession = Some s'
        \<and> length (sent s') = 3 \<and> processedIdCount s' = 12
        \<and> totalSuccessCount s' + totalFailCount s' = 12)
   \<and> batchTryCatch (Rejects ''Failed to fetch'') 1 [''1001''] newSession =
       failed 1 [''1001''] ''Network error: Failed to fetch'' newSession
   \<and> batchTryCatch
         (Resolves \<lparr>status = 502, statusText = ''Bad Gateway'', json = Inl ''Unexpected token''\<rparr>)
         1 [''1001''] newSession =
       failed 1 [''1001''] ''HTTP 502'' newSession"
proof -
  have h: "(0::int) < 5" "\<forall>i. \<not> isCancelled exampleEnv i"
    by (simp_all add: exampleEnv_def)
  have n: "show_nat 502 = ''502''"
    by code_simp
  have b: "\<not> batchSucceeds (batchFetch exampleEnv 1)"
    by (simp add: batchSucceeds_def exampleEnv_def rateLimited_def)
  show ?thesis
    using batch_failures_are_contained
      [OF h, where u = "JStr ''tok''" and a = "''app''" and allOrderIds = exampleIds
        and s = newSession] exampleRun h b n
    by auto
qed



section \<open>Claims about the classification of a batch\<close>

text \<open>
  C3 (as amended). For a batch of size \<open>s\<close>: a response with status 200 or 204 adds
  \<open>s\<close> to the succeeded count. Any other status adds \<open>s\<close> to the failed count, with
  some message. The message is taken by three steps: the \<^verbatim>\<open>error\<close> field of the body when
  it is truthy, else the nested \<^verbatim>\<open>status.message\<close> field when it is truthy, else the text
  \<^verbatim>\<open>HTTP\<close> followed by the status code (a body that does not parse counts as the empty
  object); it is the text of that value whenever the body is not the JSON value \<open>null\<close>
  and the value converts to text, as every string, number and boolean does. So status 204
  counts the batch as succeeded and status 500 with body \<^verbatim>\<open>{"error":"rate limited"}\<close> counts
  it as failed with the message \<^verbatim>\<open>rate limited\<close>.
\<close>

theorem batch_classification:
  "(status r = 200 \<or> status r = 204 \<longrightarrow> batchTryCatch (Resolves r) n b s = succeeded n b s)
   \<and> (status r \<noteq> 200 \<and> status r \<noteq> 204 \<longrightarrow>
        (\<exists>msg. batchTryCatch (Resolves r) n b s = failed n b msg s))
   \<and> (status r \<noteq> 200 \<and> status r \<noteq> 204 \<and> errorData r \<noteq> JNull \<and> errorData r \<noteq> JUndefined
        \<and> toString
            (if truthy (optProp (errorData r) ''error'') then optProp (errorData r) ''error''
             else if truthy (optProp (optProp (errorData r) ''status'') ''message'')
             then optProp (optProp (errorData r) ''status'') ''message''
             else JStr (''HTTP '' @ show_nat (status r))) = Inr text \<longrightarrow>
        batchTryCatch (Resolves r) n b s = failed n b text s)
   \<and> (status r \<noteq> 200 \<and> status r \<noteq> 204 \<and> errorData r \<noteq> JNull \<and> errorData r \<noteq> JUndefined
        \<and> \<not> truthy (optProp (errorData r) ''error'')
        \<and> \<not> truthy (optProp (optProp (errorData r) ''status'') ''message'') \<longrightarrow>
        batchTryCatch (Resolves r) n b s = failed n b (''HTTP '' @ show_nat (status r)) s)"
proof -
  have ok: "batchTryCatch (Resolves r) n b s = succeeded n b s"
    if "status r = 200 \<or> status r = 204"
    using that by (simp add: batchTryCatch_eq batchSucceeds_def)
  have any: "\<exists>msg. batchTryCatch (Resolves r) n b s = failed n b msg s"
    if "status r \<noteq> 200 \<and> status r \<noteq> 204"
    using that by (auto simp: batchTryCatch_eq batchSucceeds_def)
  have chosen: "errorMessage r =
        Inr (if truthy (optProp (errorData r) ''error'') then optProp (errorData r) ''error''
             else if truthy (optProp (optProp (errorData r) ''status'') ''message'')
             then optProp (optProp (errorData r) ''status'') ''message''
             else JStr (''HTTP '' @ show_nat (status r)))"
    if "errorData r \<noteq> JNull \<and> errorData r \<noteq> JUndefined"
    using that by (simp add: errorMessage_def getProp_optProp Let_def)
  have other: "batchTryCatch (Resolves r) n b s = failed n b text s"
    if "status r \<noteq> 200 \<and> status r \<noteq> 204 \<and> errorData r \<noteq> JNull \<and> errorData r \<noteq> JUndefined
        \<and> toString
            (if truthy (optProp (errorData r) ''error'') then optProp (errorData r) ''error''
             else if truthy (optProp (optProp (errorData r) ''status'') ''message'')
             then optProp (optProp (errorData r) ''status'') ''message''
             else JStr (''HTTP '' @ show_nat (status r))) = Inr text"
    using that chosen
    by (simp add: batchTryCatch_eq batchSucceeds_def failureMessage_def)
  have last: "batchTryCatch (Resolves r) n b s = failed n b (''HTTP '' @ show_nat (status r)) s"
    if "status r \<noteq> 200 \<and> status r \<noteq> 204 \<and> errorData r \<noteq> JNull \<and> errorData r \<noteq> JUndefined
        \<and> \<not> truthy (optProp (errorData r) ''error'')
        \<and> \<not> truthy (optProp (optProp (errorData r) ''status'') ''message'')"
    using that chosen
    by (simp add: batchTryCatch_eq batchSucceeds_def failureMessage_def)
  show ?thesis using ok any other last by blast
qed

theorem batch_classification_witness:
  "batchTryCatch (Resolves noContent) 1 [''1001'', ''1002''] newSession =
     succeeded 1 [''1001'', ''1002''] newSession
   \<and> totalSuccessCount (succeeded 1 [''1001'', ''1002''] newSession) = 2
   \<and> batchTryCatch (Resolves rateLimited) 1 [''1001'', ''1002''] newSession =
     failed 1 [''1001'', ''1002''] ''rate limited'' newSession
   \<and> totalFailCount (failed 1 [''1001'', ''1002''] ''rate limited'' newSession) = 2
   \<and> batchTryCatch (Resolves emptyBody) 1 [''1001'', ''1002''] newSession =
     failed 1 [''1001'', ''1002''] ''HTTP 500'' newSession"
proof -
  have n: "show_nat 500 = ''500''"
    by code_simp
  show ?thesis
    using batch_classification [of noContent 1 "[''1001'', ''1002'']" newSession]
      batch_classification [of rateLimited 1 "[''1001'', ''1002'']" newSession "''rate limited''"]
      batch_classification [of emptyBody 1 "[''1001'', ''1002'']" newSession] n
    by (simp add: noContent_def rateLimited_def emptyBody_def errorData_def succeeded_def
        failed_def newSession_def logToScreen_def)
qed

text \<open>
  C3 as stated fails: for status 500 with the body \<^verbatim>\<open>{}\<close> the message is \<^verbatim>\<open>HTTP 500\<close>, made
  of the status code, and not the status text of the response. With the body \<^verbatim>\<open>null\<close>
  the message comes from none of the three steps: reading \<^verbatim>\<open>errorData.error\<close> throws, and
  the \<^verbatim>\<open>catch\<close> reports a network error.
\<close>

theorem batch_message_counterexample:
  "batchTryCatch (Resolves emptyBody) 1 [''1001''] newSession =
     failed 1 [''1001''] ''HTTP 500'' newSession
   \<and> batchTryCatch (Resolves emptyBody) 1 [''1001''] newSession \<noteq>
     failed 1 [''1001''] (statusText emptyBody) newSession
   \<and> batchTryCatch (Resolves nullBody) 1 [''1001''] newSession =
     failed 1 [''1001''] (''Network error: '' @ message (cannotRead ''null'' ''error'')) newSession
   \<and> batchTryCatch (Resolves nullBody) 1 [''1001''] newSession \<noteq>
     failed 1 [''1001''] ''HTTP 500'' newSession"
  by code_simp


text \<open>
  The conversion of the message to text can throw as well: for the body
  \<^verbatim>\<open>{"error":{"toString":1}}\<close> the template literal of the failure line throws, and the
  \<^verbatim>\<open>catch\<close> counts the batch as failed with a network error.
\<close>

lemma batch_message_conversion_throws:
  "batchTryCatch
     (Resolves \<lparr>status = 500, statusText = ''Internal Server Error'',
        json = Inr (JObj [(''error'', JObj [(''toString'', JNum ''1'')])])\<rparr>)
     1 [''1001''] newSession =
   failed 1 [''1001''] ''Network error: Cannot convert object to primitive value'' newSession"
  by code_simp

text \<open>
  C8 (as amended). A failed batch leaves one diagnostic: a single error line of the log
  with the number of the batch and the failure message. The session keeps the number of
  failed identifiers, the size of the batch added to \<open>totalFailCount\<close>, and no record of
  which identifiers failed: the log does not depend on the identifiers. The loop then goes
  on with the next batch.
\<close>

theorem failed_batch_is_logged_once:
  assumes "\<not> batchSucceeds (batchFetch e i)"
  shows "logOutput (batchIteration e u a cs i s) =
       logOutput s @ [(ProcessingBatch (i + 1) (length cs), False),
                      (BatchFailed (i + 1) (failureMessage (batchFetch e i)), True)]
     \<and> totalFailCount (batchIteration e u a cs i s) = totalFailCount s + length (cs ! i)
     \<and> totalSuccessCount (batchIteration e u a cs i s) = totalSuccessCount s
     \<and> processedIdCount (batchIteration e u a cs i s) = processedIdCount s + length (cs ! i)
     \<and> sent (batchIteration e u a cs i s) = sent s @ [PurchasesDelete a u (cs ! i)]
     \<and> (\<forall>cs'. length cs' = length cs \<longrightarrow>
           logOutput (batchIteration e u a cs' i s) = logOutput (batchIteration e u a cs i s))
     \<and> (i < length cs \<and> \<not> isCancelled e i \<longrightarrow>
           batchLoop e u a cs i s = batchLoop e u a cs (i + 1) (batchIteration e u a cs i s))"
  using assms by (simp add: batchIteration_eq batchLoop_step)

theorem failed_batch_is_logged_once_witness:
  "\<not> batchSucceeds (batchFetch allFail 0)
   \<and> logOutput (batchIteration allFail (JStr ''tok'') ''app'' [[''1001'', ''1001'', ''1002'']] 0
        newSession) =
       [(ProcessingBatch 1 1, False), (BatchFailed 1 ''HTTP 500'', True)]
   \<and> totalFailCount (batchIteration allFail (JStr ''tok'') ''app'' [[''1001'', ''1001'', ''1002'']] 0
        newSession) = 3"
proof -
  have h: "\<not> batchSucceeds (batchFetch allFail 0)"
    by (simp add: batchSucceeds_def allFail_def emptyBody_def)
  have m: "failureMessage (batchFetch allFail 0) = ''HTTP 500''"
    by code_simp
  show ?thesis
    using failed_batch_is_logged_once [OF h, where u = "JStr ''tok''" and a = "''app''"
        and cs = "[[''1001'', ''1001'', ''1002'']]" and s = newSession] h m
    by (simp add: newSession_def)
qed

text \<open>
  C8 as stated fails: two runs whose only batch fails, one on the identifiers 1001, 1001,
  1002 and one on 2001, 2002, 2003, end with the same log and the same counters. No line
  names an identifier, and the session has no set of failed identifiers.
\<close>

theorem failed_identifiers_counterexample:
  "invalidateOrdersInBatchesWith 5 allFail (JStr ''tok'') ''app'' [''1001'', ''1001'', ''1002'']
       newSession =
     Some \<lparr>totalSuccessCount = 0, totalFailCount = 3, processedIdCount = 3,
       sent = [PurchasesDelete ''app'' (JStr ''tok'') [''1001'', ''1001'', ''1002'']],
       logOutput = [(StartingInvalidation 3 5, False), (ProcessingBatch 1 1, False),
         (BatchFailed 1 ''HTTP 500'', True), (ProcessingComplete, False),
         (Summary 0 3, False), (TotalTime, False)]\<rparr>
   \<and> invalidateOrdersInBatchesWith 5 allFail (JStr ''tok'') ''app'' [''2001'', ''2002'', ''2003'']
       newSession =
     Some \<lparr>totalSuccessCount = 0, totalFailCount = 3, processedIdCount = 3,
       sent = [PurchasesDelete ''app'' (JStr ''tok'') [''2001'', ''2002'', ''2003'']],
       logOutput = [(StartingInvalidation 3 5, False), (ProcessingBatch 1 1, False),
         (BatchFailed 1 ''HTTP 500'', True), (ProcessingComplete, False),
         (Summary 0 3, False), (TotalTime, False)]\<rparr>"
  by code_simp

section \<open>Claims about the token step\<close>

text \<open>
  C5 (as amended). When the token request fails (it is rejected, its body does not
  parse, its status is not a success, or the parsed body has no truthy \<^verbatim>\<open>access_token\<close>),
  no batch is sent: the run ends with the token request as its only request, all counters
  zero and the error in the log. For a status that is not a success the error carries the
  \<^verbatim>\<open>error_description\<close> field of the response whenever that field is truthy and converts
  to text, as every string does, and the status text when the body is not \<open>null\<close> and the
  field is not truthy. For a success status, a parsed body that is not \<open>null\<close> and has no
  truthy \<^verbatim>\<open>access_token\<close> raises the fixed message
  \<^verbatim>\<open>Token not found in authentication response.\<close>, whatever else the body holds.
\<close>

theorem credential_failure_stops_the_run:
  assumes "allOrderIds \<noteq> []" and "appKey \<noteq> []" and "secretKey \<noteq> []"
      and "credentialFails e"
  shows "\<exists>err. startInvalidationProcessWith B e appKey secretKey allOrderIds =
       Some (Finished \<lparr>totalSuccessCount = 0, totalFailCount = 0, processedIdCount = 0,
         sent = [TokenRequest appKey secretKey],
         logOutput = [(StartingProcess (length allOrderIds), False), (GeneratingToken, False),
           (CriticalError err, True), (ProcessStopped, False)]\<rparr>)
     \<and> (\<forall>r data t. tokenFetch e = Resolves r \<and> \<not> ok r \<and> json r = Inr data
            \<and> truthy (optProp data ''error_description'')
            \<and> toString (optProp data ''error_description'') = Inr t \<longrightarrow>
          err = ''Token generation failed: '' @ t)
     \<and> (\<forall>r data. tokenFetch e = Resolves r \<and> \<not> ok r \<and> json r = Inr data
            \<and> data \<noteq> JNull \<and> data \<noteq> JUndefined
            \<and> \<not> truthy (optProp data ''error_description'') \<longrightarrow>
          err = ''Token generation failed: '' @ statusText r)
     \<and> (\<forall>r data. tokenFetch e = Resolves r \<and> ok r \<and> json r = Inr data
            \<and> data \<noteq> JNull \<and> data \<noteq> JUndefined \<longrightarrow>
          err = ''Token not found in authentication response.'')"
proof -
  define s0 where "s0 = logToScreen (StartingProcess (length allOrderIds)) False newSession"
  from generateUToken_fails [OF assms(4), of appKey secretKey s0]
  show ?thesis
  proof (elim exE conjE)
    fix err
    assume gen: "generateUToken e appKey secretKey s0 =
           ((logToScreen GeneratingToken False s0)
              \<lparr>sent := sent s0 @ [TokenRequest appKey secretKey]\<rparr>, Inl (Thrown err))"
    assume cause: "\<forall>r data t. tokenFetch e = Resolves r \<and> \<not> ok r \<and> json r = Inr data
            \<and> truthy (optProp data ''error_description'')
            \<and> toString (optProp data ''error_description'') = Inr t \<longrightarrow>
          err = ''Token generation failed: '' @ t"
    assume status_text: "\<forall>r data. tokenFetch e = Resolves r \<and> \<not> ok r \<and> json r = Inr data
            \<and> data \<noteq> JNull \<and> data \<noteq> JUndefined
            \<and> \<not> truthy (optProp data ''error_description'') \<longrightarrow>
          err = ''Token generation failed: '' @ statusText r"
    assume fixed: "\<forall>r data. tokenFetch e = Resolves r \<and> ok r \<and> json r = Inr data
            \<and> data \<noteq> JNull \<and> data \<noteq> JUndefined \<longrightarrow>
          err = ''Token not found in authentication response.''"
    have run: "startInvalidationProcessWith B e appKey secretKey allOrderIds =
       Some (Finished \<lparr>totalSuccessCount = 0, totalFailCount = 0, processedIdCount = 0,
         sent = [TokenRequest appKey secretKey],
         logOutput = [(StartingProcess (length allOrderIds), False), (GeneratingToken, False),
           (CriticalError err, True), (ProcessStopped, False)]\<rparr>)"
      using assms(1-3) gen
      by (simp add: startInvalidationProcessWith_def s0_def Let_def logToScreen_def newSession_def)
    show ?thesis
      by (rule exI [of _ err]) (intro conjI run cause status_text fixed)
  qed
qed

theorem credential_failure_stops_the_run_witness:
  "exampleIds \<noteq> [] \<and> credentialFails refusingEnv \<and> credentialFails emptyTokenEnv
   \<and> startInvalidationProcess refusingEnv ''app'' ''secret'' exampleIds =
       Some (Finished \<lparr>totalSuccessCount = 0, totalFailCount = 0, processedIdCount = 0,
         sent = [TokenRequest ''app'' ''secret''],
         logOutput = [(StartingProcess 12, False), (GeneratingToken, False),
           (CriticalError ''Token generation failed: Bad credentials'', True),
           (ProcessStopped, False)]\<rparr>)
   \<and> startInvalidationProcess emptyTokenEnv ''app'' ''secret'' exampleIds =
       Some (Finished \<lparr>totalSuccessCount = 0, totalFailCount = 0, processedIdCount = 0,
         sent = [TokenRequest ''app'' ''secret''],
         logOutput = [(StartingProcess 12, False), (GeneratingToken, False),
           (CriticalError ''Token not found in authentication response.'', True),
           (ProcessStopped, False)]\<rparr>)"
proof -
  have h: "exampleIds \<noteq> []" "''app'' \<noteq> []" "''secret'' \<noteq> []" "credentialFails refusingEnv"
    by (simp_all add: exampleIds_def credentialFails_def refusingEnv_def tokenRefused_def ok_def)
  have h': "credentialFails emptyTokenEnv"
    by (simp add: credentialFails_def emptyTokenEnv_def ok_def)
  have ev: "startInvalidationProcess refusingEnv ''app'' ''secret'' exampleIds =
       Some (Finished \<lparr>totalSuccessCount = 0, totalFailCount = 0, processedIdCount = 0,
         sent = [TokenRequest ''app'' ''secret''],
         logOutput = [(StartingProcess 12, False), (GeneratingToken, False),
           (CriticalError ''Token generation failed: Bad credentials'', True),
           (ProcessStopped, False)]\<rparr>)"
    by (simp add: refusingEnv_def tokenRefused_def ok_def exampleIds_def
        startInvalidationProcess_def startInvalidationProcessWith_def generateUToken_def
        logToScreen_def newSession_def Let_def)
  have ev': "startInvalidationProcess emptyTokenEnv ''app'' ''secret'' exampleIds =
       Some (Finished \<lparr>totalSuccessCount = 0, totalFailCount = 0, processedIdCount = 0,
         sent = [TokenRequest ''app'' ''secret''],
         logOutput = [(StartingProcess 12, False), (GeneratingToken, False),
           (CriticalError ''Token not found in authentication response.'', True),
           (ProcessStopped, False)]\<rparr>)"
    by (simp add: emptyTokenEnv_def ok_def exampleIds_def
        startInvalidationProcess_def startInvalidationProcessWith_def generateUToken_def
        logToScreen_def newSession_def Let_def)
  show ?thesis
    using credential_failure_stops_the_run [OF h, of BATCH_SIZE]
      credential_failure_stops_the_run [OF h(1-3) h', of BATCH_SIZE] h(1,4) h' ev ev'
    by (simp add: startInvalidationProcess_def)
qed

text \<open>
  C5 as stated fails: a response with status 200 that has no token but has an
  \<^verbatim>\<open>error_description\<close> raises the fixed message
  \<^verbatim>\<open>Token not found in authentication response.\<close>, not the cause the server gave.
\<close>

theorem credential_cause_counterexample:
  "credentialFails tokenlessEnv
   \<and> json tokenMissing = Inr (JObj [(''error_description'', JStr ''Bad credentials'')])
   \<and> startInvalidationProcess tokenlessEnv ''app'' ''secret'' exampleIds =
       Some (Finished \<lparr>totalSuccessCount = 0, totalFailCount = 0, processedIdCount = 0,
         sent = [TokenRequest ''app'' ''secret''],
         logOutput = [(StartingProcess 12, False), (GeneratingToken, False),
           (CriticalError ''Token not found in authentication response.'', True),
           (ProcessStopped, False)]\<rparr>)"
  by (simp add: credentialFails_def tokenlessEnv_def tokenMissing_def ok_def exampleIds_def
      startInvalidationProcess_def startInvalidationProcessWith_def generateUToken_def
      logToScreen_def newSession_def Let_def)


text \<open>
  A body that is the JSON value \<open>null\<close> is outside the amended claim: with status 200
  reading \<^verbatim>\<open>data.access_token\<close> throws, and the error of the run is that TypeError. No
  batch is sent then either.
\<close>

lemma token_null_body:
  "startInvalidationProcess
     (exampleEnv\<lparr>tokenFetch :=
        Resolves \<lparr>status = 200, statusText = ''OK'', json = Inr JNull\<rparr>\<rparr>)
     ''app'' ''secret'' exampleIds =
   Some (Finished \<lparr>totalSuccessCount = 0, totalFailCount = 0, processedIdCount = 0,
     sent = [TokenRequest ''app'' ''secret''],
     logOutput = [(StartingProcess 12, False), (GeneratingToken, False),
       (CriticalError (message (cannotRead ''null'' ''access_token'')), True),
       (ProcessStopped, False)]\<rparr>)"
  by (simp add: exampleEnv_def ok_def exampleIds_def
      startInvalidationProcess_def startInvalidationProcessWith_def generateUToken_def
      logToScreen_def newSession_def Let_def)

section \<open>Claims about the estimated time remaining\<close>

text \<open>
  C6 (as amended). For every progress update with processed count \<open>p\<close>, total \<open>n\<close> and
  elapsed time \<open>e\<close>: when \<open>p = 0\<close>, or the value computed is not finite, or it is negative,
  the time remaining is reported as not available. Otherwise the value computed is
  \<open>(n - p) * (e / p)\<close> milliseconds, and what is reported is that value rounded to the
  nearest whole second, shown as minutes and seconds: it is within half a second of the
  value.
\<close>

theorem eta_report:
  "(p = 0 \<longrightarrow> updateProgressUI p n e = NotAvailable)
   \<and> formatTime PosInfinity = NotAvailable \<and> formatTime NegInfinity = NotAvailable
   \<and> formatTime NaN = NotAvailable
   \<and> (0 < p \<longrightarrow> etrMs p n e = Finite ((of_nat n - of_nat p) * (of_int e / of_nat p)))
   \<and> (0 < p \<and> (of_nat n - of_nat p) * (of_int e / of_nat p) < (0::rat) \<longrightarrow>
        updateProgressUI p n e = NotAvailable)
   \<and> (0 < p \<and> (0::rat) \<le> (of_nat n - of_nat p) * (of_int e / of_nat p) \<longrightarrow>
        (\<exists>secs. 0 \<le> secs
           \<and> \<bar>1000 * of_int secs - (of_nat n - of_nat p) * (of_int e / of_nat p)\<bar> \<le> (500::rat)
           \<and> updateProgressUI p n e =
               (if 0 < secs div 60 then MinutesSeconds (secs div 60) (secs mod 60)
                else Seconds (secs mod 60))))"
proof -
  define v :: rat where "v = (of_nat n - of_nat p) * (of_int e / of_nat p)"
  have zero: "updateProgressUI p n e = NotAvailable" if "p = 0"
  proof (cases "etrMs p n e")
    case (Finite x)
    with that etrMs_zero [of n e x] show ?thesis by simp
  qed (simp_all add: updateProgressUI_def)
  have val: "etrMs p n e = Finite v" if "0 < p"
    using etrMs_pos [OF that] by (simp add: v_def)
  have neg: "updateProgressUI p n e = NotAvailable" if "0 < p \<and> v < 0"
    using that val by (simp add: updateProgressUI_def)
  have pos: "\<exists>secs. 0 \<le> secs \<and> \<bar>1000 * of_int secs - v\<bar> \<le> (500::rat)
           \<and> updateProgressUI p n e =
               (if 0 < secs div 60 then MinutesSeconds (secs div 60) (secs mod 60)
                else Seconds (secs mod 60))" if "0 < p \<and> 0 \<le> v"
  proof -
    define secs where "secs = \<lfloor>v / 1000 + 1 / 2\<rfloor>"
    have "0 \<le> v / 1000 + 1 / 2" using that by simp
    then have 1: "0 \<le> secs" unfolding secs_def by simp
    have 2: "\<bar>1000 * of_int secs - v\<bar> \<le> 500"
      unfolding secs_def by (rule round_bound)
    have 3: "updateProgressUI p n e =
               (if 0 < secs div 60 then MinutesSeconds (secs div 60) (secs mod 60)
                else Seconds (secs mod 60))"
      using that val by (simp add: updateProgressUI_def secs_def Let_def)
    from 1 2 3 show ?thesis by blast
  qed
  show ?thesis
    using zero val neg pos unfolding v_def by simp
qed


theorem eta_report_witness:
  "updateProgressUI 0 12000 1000 = NotAvailable
   \<and> etrMs 5000 12000 (- 90500) = Finite (- 126700)
   \<and> updateProgressUI 5000 12000 (- 90500) = NotAvailable
   \<and> etrMs 5000 12000 90500 = Finite 126700
   \<and> updateProgressUI 5000 12000 90500 = MinutesSeconds 2 7"
proof -
  have f: "\<lfloor>(636::rat) / 5\<rfloor> = 127"
    by (simp add: floor_eq_iff)
  have ev: "updateProgressUI 5000 12000 90500 = MinutesSeconds 2 7"
    by (simp add: updateProgressUI_def etrMs_def jsDivide_def Let_def f)
  have v: "(of_nat 12000 - of_nat 5000) * (of_int 90500 / of_nat 5000) = (126700::rat)"
    "(of_nat 12000 - of_nat 5000) * (of_int (- 90500) / of_nat 5000) = (- 126700::rat)"
    by simp_all
  show ?thesis
    using eta_report [of 0 12000 1000] eta_report [of 5000 12000 "- 90500"]
      eta_report [of 5000 12000 90500] ev
    by (simp only: v) simp
qed

text \<open>
  C6 as stated fails: after one of two identifiers in 1400 ms the value is 1400 ms and
  the report is one second; and with a clock set back by a second the value is finite,
  \<open>p\<close> is not zero, and the report is that the time is not available.
\<close>

theorem eta_report_counterexample:
  "etrMs 1 2 1400 = Finite 1400
   \<and> updateProgressUI 1 2 1400 = Seconds 1
   \<and> etrMs 1 3 (- 1000) = Finite (- 2000)
   \<and> updateProgressUI 1 3 (- 1000) = NotAvailable"
proof -
  have f: "\<lfloor>(19::rat) / 10\<rfloor> = 1"
    by (simp add: floor_eq_iff)
  show ?thesis
    by (simp add: updateProgressUI_def etrMs_def jsDivide_def Let_def f)
qed

end
